theory Spec2Isabelle
  imports Main "HOL-Library.Word"
begin

section \<open>Data model of source-record-async.c\<close>

text \<open>
  The C integer types of the source: \<open>uint64_t\<close> timestamps, \<open>uint32_t\<close> strides and
  dimensions, \<open>uint8_t\<close> pixel bytes, \<open>int\<close> tick counts (32 bits, read with \<open>sint\<close>) and
  \<open>long\<close> reference counts (64 bits, read with \<open>sint\<close>).
\<close>

type_synonym u8 = "8 word"
type_synonym u32 = "32 word"
type_synonym u64 = "64 word"
type_synonym c_int = "32 word"
type_synonym c_long = "64 word"

text \<open>Opaque libobs handles (\<open>obs_output_t *\<close>, \<open>video_t *\<close>) and frame pointers.\<close>

type_synonym obs_output = nat
type_synonym video_t = nat
type_synonym frame_ptr = nat

datatype async_record_state = idle | starting | running | stopping

text \<open>
  \<open>struct obs_source_frame\<close>: the fields the source reads. A plane pointer \<open>data[i]\<close> is
  the list of the bytes that are addressable from it; the arrays are indexed by plane.
\<close>

record obs_source_frame =
  data :: "nat \<Rightarrow> u8 list"
  linesize :: "nat \<Rightarrow> u32"
  width :: u32
  height :: u32
  timestamp :: u64
  format :: nat
  full_range :: bool
  refs :: c_long

text \<open>\<open>struct video_frame\<close>: the write slot that \<open>video_output_lock_frame\<close> hands out.\<close>

record video_frame =
  data_vf :: "nat \<Rightarrow> u8 list"
  linesize_vf :: "nat \<Rightarrow> u32"

text \<open>
  The calls into libobs whose effect outlives the call: what the fixed-rate sink and the
  output backend were asked to do, in order.
\<close>

datatype api_call =
    Video_lock_frame c_int u64 bool
  | Video_unlock_frame video_frame
  | Output_force_stop obs_output
  | Output_release obs_output
  | Video_close video_t

text \<open>
  \<open>struct async_record\<close>. The fields \<open>record\<close> and \<open>output\<close> of the source are \<open>record_flag\<close> and
  \<open>output_handle\<close> here (both names are keywords of Isabelle).
  Two components stand for the world outside the struct: \<open>frames\<close> is the heap of
  \<open>obs_source_frame\<close> objects (the queue \<open>video_frames\<close> holds pointers into it), and
  \<open>calls\<close> is the log of libobs calls made so far.
\<close>

record async_record =
  directory :: "string option"
  filename_format :: "string option"
  extension :: "string option"
  overwrite_timestamp :: bool
  video_frames :: "frame_ptr list"
  output_handle :: "obs_output option"
  video_output :: "video_t option"
  last_video_ns :: u64
  video_frame_interval :: u64
  state :: async_record_state
  enabled :: bool
  need_restart :: bool
  record_flag :: bool
  close :: bool
  failed :: bool
  output_stopped :: bool
  frames :: "frame_ptr \<Rightarrow> obs_source_frame option"
  calls :: "api_call list"

section \<open>send_video: retiming and copy into the sink\<close>

text \<open>
  \<open>memcpy(d + doff, s + soff, n)\<close> on byte lists. An access outside either buffer is
  undefined behaviour in C; the model returns \<open>None\<close>.
\<close>

definition memcpy :: "u8 list \<Rightarrow> nat \<Rightarrow> u8 list \<Rightarrow> nat \<Rightarrow> nat \<Rightarrow> u8 list option" where
  "memcpy dst doff src soff n =
     (if doff + n \<le> length dst \<and> soff + n \<le> length src
      then Some (take doff dst @ take n (drop soff src) @ drop (doff + n) dst)
      else None)"

text \<open>
  The row loop of lines 259-263: \<open>y\<close> counts rows, \<open>d\<close> and \<open>s\<close> are the offsets the two
  pointers have reached.
\<close>

function copy_rows ::
  "u32 \<Rightarrow> u32 \<Rightarrow> u32 \<Rightarrow> u32 \<Rightarrow> u32 \<Rightarrow> nat \<Rightarrow> nat \<Rightarrow> u8 list \<Rightarrow> u8 list \<Rightarrow> u8 list option" where
  "copy_rows y h ls dls sls d s dst src =
     (if y < h then
        (case memcpy dst d src s (unat ls) of
           None \<Rightarrow> None
         | Some dst' \<Rightarrow> copy_rows (y + 1) h ls dls sls (d + unat dls) (s + unat sls) dst' src)
      else Some dst)"
  by pat_completeness auto
termination
proof (relation "measure (\<lambda>(y, h, ls, dls, sls, d, s, dst, src). unat h - unat y)")
  show "wf (measure (\<lambda>(y, h, ls, dls, sls, d, s, dst, src). unat h - unat y))"
    by simp
next
  fix y h :: u32 and ls dls sls :: u32 and d s :: nat and dst src x2 :: "u8 list"
  assume "y < h"
  then have "unat y < unat h"
    by (simp add: word_less_nat_alt)
  moreover have "unat h < 2 ^ 32"
    using unsigned_less [of h, where 'a = nat] by simp
  ultimately have "unat y + 1 < 2 ^ 32" and "unat y < unat h"
    by linarith+
  then have "unat h - unat (y + 1) < unat h - unat y"
    by (simp add: unat_word_ariths)
  then show "((y + 1, h, ls, dls, sls, d + unat dls, s + unat sls, x2, src),
                    (y, h, ls, dls, sls, d, s, dst, src))
                   \<in> measure (\<lambda>(y, h, ls, dls, sls, d, s, dst, src). unat h - unat y)"
    by simp
qed

text \<open>
  Lines 249-265: the plane loop runs for \<open>i = 0\<close> only. Equal strides: one \<open>memcpy\<close> of
  \<open>output_frame.linesize[0] * frame->height\<close> bytes (a 32-bit product). Otherwise the
  row loop with the smaller stride.
\<close>

definition copy_plane :: "obs_source_frame \<Rightarrow> video_frame \<Rightarrow> video_frame option" where
  "copy_plane frame output_frame =
     (if linesize frame 0 = linesize_vf output_frame 0 then
        (case memcpy (data_vf output_frame 0) 0 (data frame 0) 0
                (unat (linesize_vf output_frame 0 * height frame)) of
           None \<Rightarrow> None
         | Some d \<Rightarrow> Some (output_frame\<lparr>data_vf := (data_vf output_frame)(0 := d)\<rparr>))
      else
        (let ls = (if linesize_vf output_frame 0 < linesize frame 0
                   then linesize_vf output_frame 0 else linesize frame 0)
         in case copy_rows 0 (height frame) ls (linesize_vf output_frame 0) (linesize frame 0)
                  0 0 (data_vf output_frame 0) (data frame 0) of
              None \<Rightarrow> None
            | Some d \<Rightarrow> Some (output_frame\<lparr>data_vf := (data_vf output_frame)(0 := d)\<rparr>)))"

text \<open>
  What the sink answers during one call of \<open>send_video\<close>: \<open>video_output_stopped\<close>, and
  the slot of \<open>video_output_lock_frame\<close> (\<open>None\<close> when it returns false).
\<close>

record send_env =
  sink_stopped :: bool
  slot :: "video_frame option"

datatype send_outcome =
    Sink_unavailable
  | Too_many_frames
  | Lock_failed
  | Sent
  | Undefined_behaviour

text \<open>
  Lines 238-268, reached with the tick count and the emission timestamp: lock a slot for
  \<open>count\<close> ticks at \<open>ts\<close>, copy plane 0, unlock.
\<close>

definition lock_and_copy ::
  "send_env \<Rightarrow> obs_source_frame \<Rightarrow> c_int \<Rightarrow> u64 \<Rightarrow> async_record \<Rightarrow> send_outcome \<times> async_record" where
  "lock_and_copy env frame count ts s =
     (case slot env of
        None \<Rightarrow> (Lock_failed, s\<lparr>calls := calls s @ [Video_lock_frame count ts False]\<rparr>)
      | Some output_frame \<Rightarrow>
          (case copy_plane frame output_frame of
             None \<Rightarrow> (Undefined_behaviour, s\<lparr>calls := calls s @ [Video_lock_frame count ts True]\<rparr>)
           | Some written \<Rightarrow>
               (Sent, s\<lparr>calls := calls s @ [Video_lock_frame count ts True,
                                             Video_unlock_frame written]\<rparr>)))"

text \<open>
  \<open>send_video\<close>, lines 201-269. The unsigned quotient is cast to \<open>int\<close> (\<open>ucast\<close> keeps the
  low 32 bits, which is what GCC, Clang and MSVC do for a value out of range); \<open>count * s->video_frame_interval\<close> converts \<open>count\<close> back to \<open>uint64_t\<close>
  (\<open>scast\<close>, sign extension) and multiplies modulo \<open>2^64\<close>. A zero interval is a division
  by zero. The \<open>blog\<close> lines have no effect on the state and are left out.
\<close>

definition send_video ::
  "send_env \<Rightarrow> obs_source_frame \<Rightarrow> async_record \<Rightarrow> send_outcome \<times> async_record" where
  "send_video env frame s =
     (if video_output s = None \<or> sink_stopped env then (Sink_unavailable, s)
      else if last_video_ns s = 0 then
        lock_and_copy env frame 1 (timestamp frame) (s\<lparr>last_video_ns := timestamp frame\<rparr>)
      else if video_frame_interval s = 0 then (Undefined_behaviour, s)
      else
        (let count = (ucast ((timestamp frame - last_video_ns s) div video_frame_interval s) :: c_int);
             s' = s\<lparr>last_video_ns := last_video_ns s + scast count * video_frame_interval s\<rparr>
         in if sint count \<le> 0 then (Too_many_frames, s')
            else lock_and_copy env frame count (last_video_ns s') s'))"

section \<open>thread_close_loop: session teardown\<close>

text \<open>
  Lines 299-321. Nothing happens when \<open>s->output\<close> is null. Otherwise the output is
  force-stopped unless \<open>output_stopped\<close> is set, then released; the sink is closed and its
  handle cleared when it is open; the output handle is cleared last.
\<close>

definition thread_close_loop :: "async_record \<Rightarrow> async_record" where
  "thread_close_loop s =
     (case output_handle s of
        None \<Rightarrow> s
      | Some out \<Rightarrow>
          (let s1 = (if \<not> output_stopped s
                     then s\<lparr>calls := calls s @ [Output_force_stop out]\<rparr> else s);
               s2 = s1\<lparr>calls := calls s1 @ [Output_release out]\<rparr>;
               s3 = (case video_output s2 of
                       None \<Rightarrow> s2
                     | Some v \<Rightarrow> s2\<lparr>calls := calls s2 @ [Video_close v], video_output := None\<rparr>)
           in s3\<lparr>output_handle := None\<rparr>))"

text \<open>The struct as \<open>bzalloc\<close> returns it (line 446), with an empty heap and an empty log.\<close>

definition bzalloc_async_record :: async_record where
  "bzalloc_async_record =
     \<lparr>directory = None, filename_format = None, extension = None,
      overwrite_timestamp = False, video_frames = [], output_handle = None,
      video_output = None, last_video_ns = 0, video_frame_interval = 0, state = idle,
      enabled = False, need_restart = False, record_flag = False, close = False,
      failed = False, output_stopped = False, frames = (\<lambda>p. None), calls = []\<rparr>"

section \<open>The host-side entry points\<close>

text \<open>
  \<open>obs_data_t\<close> settings, read through \<open>obs_data_get_string\<close> and \<open>obs_data_get_bool\<close>
  (libobs; a missing key reads as the empty string or false).
\<close>

record obs_data =
  obs_data_get_string :: "string \<Rightarrow> string"
  obs_data_get_bool :: "string \<Rightarrow> bool"

text \<open>
  \<open>get_string\<close>, lines 405-414: the new value of \<open>*dst\<close> and whether it changed. A null
  \<open>*dst\<close> always counts as changed; \<open>strcmp\<close> is nonzero exactly when the strings differ.
\<close>

definition get_string :: "string option \<Rightarrow> obs_data \<Rightarrow> string \<Rightarrow> bool \<times> string option" where
  "get_string dst settings name =
     (let val = obs_data_get_string settings name
      in if dst = None \<or> dst \<noteq> Some val then (True, Some val) else (False, dst))"

text \<open>\<open>async_record_update\<close>, lines 416-436. All three strings are read (\<open>|=\<close> does not short-cut).\<close>

definition async_record_update :: "obs_data \<Rightarrow> async_record \<Rightarrow> async_record" where
  "async_record_update settings s =
     (let (c1, dir) = get_string (directory s) settings ''directory'';
          (c2, fmt) = get_string (filename_format s) settings ''filename_format'';
          (c3, ext) = get_string (extension s) settings ''extension'';
          changed = (c1 \<or> c2 \<or> c3);
          s1 = s\<lparr>directory := dir, filename_format := fmt, extension := ext,
                 overwrite_timestamp := obs_data_get_bool settings ''overwrite_timestamp''\<rparr>
      in if changed then s1\<lparr>failed := False, need_restart := True\<rparr> else s1)"

text \<open>\<open>on_enable_changed\<close>, lines 438-442.\<close>

definition on_enable_changed :: "bool \<Rightarrow> async_record \<Rightarrow> async_record" where
  "on_enable_changed en s = s\<lparr>enabled := en\<rparr>"

text \<open>\<open>cb_stopped\<close>, lines 118-128; \<open>OBS_OUTPUT_SUCCESS\<close> is 0.\<close>

definition cb_stopped :: "c_int \<Rightarrow> async_record \<Rightarrow> async_record" where
  "cb_stopped code s =
     (let s1 = (if code \<noteq> 0 then s\<lparr>failed := True\<rparr> else s)
      in s1\<lparr>output_stopped := True\<rparr>)"

text \<open>
  \<open>free_video_data\<close>, lines 348-360: pop every queued pointer, decrement \<open>refs\<close>
  (\<open>os_atomic_dec_long\<close> returns the new value) and destroy the frame when the new count is
  \<open>\<le> 0\<close>. Reading \<open>refs\<close> through a pointer that is not on the heap is undefined behaviour:
  \<open>None\<close>.
\<close>

function free_video_data :: "async_record \<Rightarrow> async_record option" where
  "free_video_data s =
     (case video_frames s of
        [] \<Rightarrow> Some s
      | frame # rest \<Rightarrow>
          (case frames s frame of
             None \<Rightarrow> None
           | Some f \<Rightarrow>
               free_video_data
                 (s\<lparr>video_frames := rest,
                    frames := (frames s)(frame :=
                      (if sint (refs f - 1) \<le> 0 then None else Some (f\<lparr>refs := refs f - 1\<rparr>)))\<rparr>)))"
  by pat_completeness auto
termination
  by (relation "measure (\<lambda>s. length (video_frames s))") auto

text \<open>\<open>async_record_tick\<close>, lines 462-475: the queue is freed on the transition to enabled.\<close>

definition async_record_tick :: "async_record \<Rightarrow> async_record option" where
  "async_record_tick s =
     (if enabled s \<noteq> record_flag s then
        (let s1 = s\<lparr>record_flag := enabled s\<rparr>
         in if enabled s1 then free_video_data s1 else Some s1)
      else Some s)"

text \<open>
  What libobs answers during one call of \<open>async_record_video\<close>: the pointer that
  \<open>obs_source_frame_create\<close> returns, the planes and strides of the new frame once
  \<open>obs_source_frame_copy\<close> has filled it, and \<open>obs_get_video_frame_time\<close>.
\<close>

record video_env =
  created :: frame_ptr
  copied_data :: "nat \<Rightarrow> u8 list"
  copied_linesize :: "nat \<Rightarrow> u32"
  video_frame_time :: u64

text \<open>
  \<open>async_record_video\<close>, lines 477-497. The new frame has the format and the dimensions
  given to \<open>obs_source_frame_create\<close>, a zero reference count, and the timestamp and range
  flag that \<open>obs_source_frame_copy\<close> takes from the source frame. The function returns its
  argument \<open>frame\<close>; the model returns the state.
\<close>

definition async_record_video :: "video_env \<Rightarrow> obs_source_frame \<Rightarrow> async_record \<Rightarrow> async_record" where
  "async_record_video env frame s =
     (if record_flag s \<and> 0 < width frame \<and> 0 < height frame then
        (let copied_frame =
               \<lparr>data = copied_data env, linesize = copied_linesize env,
                width = width frame, height = height frame, timestamp = timestamp frame,
                format = format frame, full_range = full_range frame, refs = 0\<rparr>;
             copied_frame =
               (if overwrite_timestamp s \<or> timestamp copied_frame = 0
                then copied_frame\<lparr>timestamp := video_frame_time env\<rparr> else copied_frame)
         in s\<lparr>frames := (frames s)(created env := Some copied_frame),
              video_frames := video_frames s @ [created env]\<rparr>)
      else s)"

text \<open>\<open>async_record_remove\<close>, lines 499-514.\<close>

definition async_record_remove :: "async_record \<Rightarrow> async_record option" where
  "async_record_remove s = free_video_data (s\<lparr>close := True\<rparr>)"

text \<open>
  \<open>async_record_destroy\<close>, lines 383-403. \<open>thread_exit\<close> is what the controller thread
  does to the state until \<open>pthread_join\<close> returns.
\<close>

definition async_record_destroy ::
  "(async_record \<Rightarrow> async_record) \<Rightarrow> async_record \<Rightarrow> async_record option" where
  "async_record_destroy thread_exit s =
     free_video_data
       ((thread_exit (s\<lparr>close := True\<rparr>))
          \<lparr>directory := None, filename_format := None, extension := None\<rparr>)"

text \<open>One call from the host (or from the output backend, for \<open>cb_stopped\<close>).\<close>

datatype host_event =
    Video video_env obs_source_frame
  | Tick
  | Update obs_data
  | Enable_changed bool
  | Stopped c_int
  | Remove

fun host_step :: "host_event \<Rightarrow> async_record \<Rightarrow> async_record option" where
  "host_step (Video env frame) s = Some (async_record_video env frame s)"
| "host_step Tick s = async_record_tick s"
| "host_step (Update settings) s = Some (async_record_update settings s)"
| "host_step (Enable_changed en) s = Some (on_enable_changed en s)"
| "host_step (Stopped code) s = Some (cb_stopped code s)"
| "host_step Remove s = async_record_remove s"

fun host_steps :: "host_event list \<Rightarrow> async_record \<Rightarrow> async_record option" where
  "host_steps [] s = Some s"
| "host_steps (e # es) s =
     (case host_step e s of None \<Rightarrow> None | Some s' \<Rightarrow> host_steps es s')"

section \<open>The controller thread\<close>

text \<open>
  The controller runs beside the host. Its calls are modelled one thread at a time: where
  the source waits on the condition variable or has released the mutex, the calls the host
  makes meanwhile are given as a list of \<open>host_event\<close>s and applied at that point. A call
  of the controller either returns, or is still waiting when the given events are used up
  (\<open>Pending\<close>), or has run into undefined behaviour (\<open>Crashed\<close>).
\<close>

datatype 'a thread_result =
    Returned 'a async_record
  | Pending async_record
  | Crashed

text \<open>
  \<open>peek_first_frame\<close>, lines 63-88. Each \<open>pthread_cond_wait\<close> takes the next host call from
  \<open>wakeups\<close>. The result is the front pointer of the queue, or \<open>None\<close> for \<open>NULL\<close>.
\<close>

fun peek_first_frame :: "host_event list \<Rightarrow> async_record \<Rightarrow> frame_ptr option thread_result" where
  "peek_first_frame wakeups s =
     (if close s \<or> \<not> record_flag s \<or> failed s then Returned None s
      else
        (case video_frames s of
           frame # rest \<Rightarrow> Returned (Some frame) s
         | [] \<Rightarrow>
             (case wakeups of
                [] \<Rightarrow> Pending s
              | e # es \<Rightarrow>
                  (case host_step e s of
                     None \<Rightarrow> Crashed
                   | Some s' \<Rightarrow> peek_first_frame es s'))))"

text \<open>
  What the environment answers during one pass through the body of \<open>thread_start_loop\<close>:
  the host call that ends the wait of line 143, the host calls made between the unlock of
  line 157 and the lock of line 65, those that end the waits of \<open>peek_first_frame\<close>, the
  sink handle and its frame time (\<open>None\<close> when \<open>video_output_open\<close> fails), the handle of
  \<open>obs_output_create\<close> (\<open>None\<close> for \<open>NULL\<close>), and the result of \<open>obs_output_start\<close>.
\<close>

record start_env =
  start_wakeup :: "host_event option"
  start_unlocked :: "host_event list"
  peek_wakeups :: "host_event list"
  video_open :: "(video_t \<times> u64) option"
  output_create :: "obs_output option"
  output_start :: bool

text \<open>
  \<open>create_video_output\<close>, lines 90-116. The frame is read through the peeked pointer; a
  failed \<open>video_output_open\<close> leaves \<open>s->video_output\<close> as it was.
\<close>

definition create_video_output :: "start_env \<Rightarrow> async_record \<Rightarrow> bool thread_result" where
  "create_video_output env s =
     (case peek_first_frame (peek_wakeups env) s of
        Crashed \<Rightarrow> Crashed
      | Pending s' \<Rightarrow> Pending s'
      | Returned None s' \<Rightarrow> Returned False s'
      | Returned (Some frame) s' \<Rightarrow>
          (case frames s' frame of
             None \<Rightarrow> Crashed
           | Some f \<Rightarrow>
               (case video_open env of
                  None \<Rightarrow> Returned False s'
                | Some (v, frame_time) \<Rightarrow>
                    Returned True
                      (s'\<lparr>video_output := Some v, last_video_ns := 0,
                          video_frame_interval := frame_time\<rparr>))))"

text \<open>
  One pass through the body of the \<open>for (;;)\<close> of \<open>thread_start_loop\<close>, lines 134-198. The
  result \<open>Some b\<close> is \<open>return b\<close>; \<open>None\<close> is \<open>continue\<close>, which leads back to the top of the
  loop. The file name and the settings object only feed \<open>obs_output_create\<close> and are left
  out.
\<close>

definition thread_start_pass :: "start_env \<Rightarrow> async_record \<Rightarrow> bool option thread_result" where
  "thread_start_pass env s0 =
     (let s = s0\<lparr>state := idle\<rparr>
      in if close s then Returned (Some False) s
         else if \<not> record_flag s \<or> failed s then
           (case start_wakeup env of
              None \<Rightarrow> Pending s
            | Some e \<Rightarrow>
                (case host_step e s of None \<Rightarrow> Crashed | Some s' \<Rightarrow> Returned None s'))
         else
           (case host_steps (start_unlocked env) (s\<lparr>state := starting, need_restart := False\<rparr>) of
              None \<Rightarrow> Crashed
            | Some s1 \<Rightarrow>
                (case create_video_output env s1 of
                   Crashed \<Rightarrow> Crashed
                 | Pending s2 \<Rightarrow> Pending s2
                 | Returned False s2 \<Rightarrow> Returned None s2
                 | Returned True s2 \<Rightarrow>
                     (case output_create env of
                        None \<Rightarrow> Returned None (s2\<lparr>failed := True\<rparr>)
                      | Some out \<Rightarrow>
                          (if \<not> output_start env then
                             Returned None
                               (s2\<lparr>output_stopped := False,
                                   calls := calls s2 @ [Output_release out],
                                   failed := True\<rparr>)
                           else
                             Returned (Some True)
                               (s2\<lparr>output_stopped := False, output_handle := Some out\<rparr>))))))"

text \<open>\<open>thread_start_loop\<close>: the loop over the passes, one \<open>start_env\<close> for each.\<close>

fun thread_start_loop :: "start_env list \<Rightarrow> async_record \<Rightarrow> bool thread_result" where
  "thread_start_loop [] s = Pending s"
| "thread_start_loop (env # envs) s =
     (case thread_start_pass env s of
        Crashed \<Rightarrow> Crashed
      | Pending s' \<Rightarrow> Pending s'
      | Returned (Some b) s' \<Rightarrow> Returned b s'
      | Returned None s' \<Rightarrow> thread_start_loop envs s')"

text \<open>
  What the environment answers during one pass through the body of \<open>thread_main_loop\<close>:
  the host call that ends the wait of line 281, the answers of the sink to \<open>send_video\<close>,
  and the host calls made while the mutex is released (lines 289-294), applied when it is
  taken again.
\<close>

record main_env =
  main_wakeup :: "host_event option"
  send :: send_env
  main_unlocked :: "host_event list"

text \<open>
  One pass through the body of the \<open>for (;;)\<close> of \<open>thread_main_loop\<close>, lines 274-295:
  \<open>True\<close> is \<open>break\<close>, \<open>False\<close> is the next pass. \<open>obs_source_frame_destroy\<close> takes the frame
  off the heap.
\<close>

definition thread_main_pass :: "main_env \<Rightarrow> async_record \<Rightarrow> bool thread_result" where
  "thread_main_pass env s0 =
     (let s = s0\<lparr>state := running\<rparr>
      in if close s \<or> \<not> record_flag s \<or> need_restart s \<or> output_stopped s then Returned True s
         else
           (case video_frames s of
              [] \<Rightarrow>
                (case main_wakeup env of
                   None \<Rightarrow> Pending s
                 | Some e \<Rightarrow>
                     (case host_step e s of None \<Rightarrow> Crashed | Some s' \<Rightarrow> Returned False s'))
            | frame # rest \<Rightarrow>
                (case frames s frame of
                   None \<Rightarrow> Crashed
                 | Some f \<Rightarrow>
                     (case send_video (send env) f (s\<lparr>video_frames := rest\<rparr>) of
                        (Undefined_behaviour, s1) \<Rightarrow> Crashed
                      | (outcome, s1) \<Rightarrow>
                          (case host_steps (main_unlocked env)
                                  (s1\<lparr>frames := (frames s1)(frame := None)\<rparr>) of
                             None \<Rightarrow> Crashed
                           | Some s2 \<Rightarrow> Returned False s2)))))"

fun thread_main_loop :: "main_env list \<Rightarrow> async_record \<Rightarrow> unit thread_result" where
  "thread_main_loop [] s = Pending s"
| "thread_main_loop (env # envs) s =
     (case thread_main_pass env s of
        Crashed \<Rightarrow> Crashed
      | Pending s' \<Rightarrow> Pending s'
      | Returned True s' \<Rightarrow> Returned () s'
      | Returned False s' \<Rightarrow> thread_main_loop envs s')"

text \<open>
  \<open>async_record_thread\<close>, lines 323-339: one pair of environment lists for each turn of
  the \<open>while\<close> loop.
\<close>

fun async_record_thread ::
  "(start_env list \<times> main_env list) list \<Rightarrow> async_record \<Rightarrow> unit thread_result" where
  "async_record_thread [] s = (if close s then Returned () s else Pending s)"
| "async_record_thread ((starts, mains) # rest) s =
     (if close s then Returned () s
      else
        (case thread_start_loop starts s of
           Crashed \<Rightarrow> Crashed
         | Pending s1 \<Rightarrow> Pending s1
         | Returned False s1 \<Rightarrow> Returned () s1
         | Returned True s1 \<Rightarrow>
             (case thread_main_loop mains s1 of
                Crashed \<Rightarrow> Crashed
              | Pending s2 \<Rightarrow> Pending s2
              | Returned u s2 \<Rightarrow> async_record_thread rest (thread_close_loop s2))))"

section \<open>Reading the log, sessions, and example data\<close>

text \<open>
  The requests made to \<open>video_output_lock_frame\<close>, oldest first: tick count, emission
  timestamp, and whether the slot was granted. A frame is presented to the sink exactly
  when its request is granted.
\<close>

fun lock_requests :: "api_call list \<Rightarrow> (c_int \<times> u64 \<times> bool) list" where
  "lock_requests [] = []"
| "lock_requests (Video_lock_frame count ts granted # cs) = (count, ts, granted) # lock_requests cs"
| "lock_requests (c # cs) = lock_requests cs"

definition presented :: "api_call list \<Rightarrow> (c_int \<times> u64) list" where
  "presented cs = map (\<lambda>(count, ts, granted). (count, ts)) (filter (\<lambda>(count, ts, granted). granted) (lock_requests cs))"

text \<open>The calls made between two states of one run.\<close>

definition calls_since :: "async_record \<Rightarrow> async_record \<Rightarrow> api_call list" where
  "calls_since s s' = drop (length (calls s)) (calls s')"

text \<open>
  The frames of one session, handed to \<open>send_video\<close> one after the other as
  \<open>thread_main_loop\<close> does, each with the answers of the sink.
\<close>

fun send_videos :: "(send_env \<times> obs_source_frame) list \<Rightarrow> async_record \<Rightarrow> async_record" where
  "send_videos [] s = s"
| "send_videos ((env, frame) # rest) s = send_videos rest (snd (send_video env frame s))"

text \<open>
  Example data: a frame of 2 by 2 one-byte pixels, a slot of the same layout, a slot whose
  rows are 3 bytes wide, a sink that grants a slot, and the state of a running session on
  sink 1 with the given tick period, before its first frame.
\<close>

definition frame_2x2 :: "u64 \<Rightarrow> obs_source_frame" where
  "frame_2x2 ts =
     \<lparr>data = (\<lambda>i. if i = 0 then [1, 2, 3, 4] else []), linesize = (\<lambda>i. if i = 0 then 2 else 0),
      width = 2, height = 2, timestamp = ts, format = 0, full_range = False, refs = 0\<rparr>"

definition slot_2x2 :: video_frame where
  "slot_2x2 = \<lparr>data_vf = (\<lambda>i. if i = 0 then [0, 0, 0, 0] else []),
                linesize_vf = (\<lambda>i. if i = 0 then 2 else 0)\<rparr>"

definition slot_3x2 :: video_frame where
  "slot_3x2 = \<lparr>data_vf = (\<lambda>i. if i = 0 then [9, 9, 9, 9, 9, 9] else [7]),
                linesize_vf = (\<lambda>i. if i = 0 then 3 else 1)\<rparr>"

definition sink_ready :: send_env where
  "sink_ready = \<lparr>sink_stopped = False, slot = Some slot_2x2\<rparr>"

definition open_session :: "u64 \<Rightarrow> async_record" where
  "open_session period =
     bzalloc_async_record\<lparr>record_flag := True, enabled := True, state := running,
        output_handle := Some 2, video_output := Some 1,
        last_video_ns := 0, video_frame_interval := period\<rparr>"

text \<open>The values \<open>last_video_ns\<close> takes during a session: before each frame, and at the end.\<close>

fun last_video_trace :: "(send_env \<times> obs_source_frame) list \<Rightarrow> async_record \<Rightarrow> u64 list" where
  "last_video_trace [] s = [last_video_ns s]"
| "last_video_trace ((env, frame) # rest) s =
     last_video_ns s # last_video_trace rest (snd (send_video env frame s))"

text \<open>
  More example data: the answers of the environment to one pass of \<open>thread_start_loop\<close>
  with no host call in between, and a state in which recording is on and one frame is
  queued.
\<close>

definition start_answers :: "(video_t \<times> u64) option \<Rightarrow> obs_output option \<Rightarrow> bool \<Rightarrow> start_env" where
  "start_answers opened made started =
     \<lparr>start_wakeup = None, start_unlocked = [], peek_wakeups = [],
      video_open = opened, output_create = made, output_start = started\<rparr>"

definition recording_state :: async_record where
  "recording_state =
     bzalloc_async_record\<lparr>directory := Some ''/tmp'', filename_format := Some ''%CCYY-%MM-%DD'',
        extension := Some ''mkv'', record_flag := True, enabled := True,
        video_frames := [5], frames := (\<lambda>p. if p = 5 then Some (frame_2x2 7) else None),
        last_video_ns := 99\<rparr>"

text \<open>Example settings, and the answers of the environment to one pass of \<open>thread_main_loop\<close>.\<close>

definition settings_of :: "string \<Rightarrow> string \<Rightarrow> string \<Rightarrow> bool \<Rightarrow> obs_data" where
  "settings_of dir fmt ext overwrite =
     \<lparr>obs_data_get_string =
        (\<lambda>name. if name = ''directory'' then dir
                else if name = ''filename_format'' then fmt
                else if name = ''extension'' then ext else []),
      obs_data_get_bool = (\<lambda>name. name = ''overwrite_timestamp'' \<and> overwrite)\<rparr>"

definition main_answers :: main_env where
  "main_answers = \<lparr>main_wakeup = None, send = sink_ready, main_unlocked = []\<rparr>"

definition video_answers :: "frame_ptr \<Rightarrow> u64 \<Rightarrow> video_env" where
  "video_answers p now =
     \<lparr>created = p, copied_data = (\<lambda>i. if i = 0 then [1, 2, 3, 4] else []),
      copied_linesize = (\<lambda>i. if i = 0 then 2 else 0), video_frame_time = now\<rparr>"

text \<open>
  What \<open>free_video_data\<close> does to one frame (the decrement of \<open>refs\<close>, and the destruction
  when the new count is \<open>\<le> 0\<close>), and the heap after every frame of a queue is released.
\<close>

definition release_frame :: "obs_source_frame \<Rightarrow> obs_source_frame option" where
  "release_frame f = (if sint (refs f - 1) \<le> 0 then None else Some (f\<lparr>refs := refs f - 1\<rparr>))"

definition released :: "frame_ptr list \<Rightarrow> (frame_ptr \<Rightarrow> obs_source_frame option) \<Rightarrow> frame_ptr \<Rightarrow> obs_source_frame option" where
  "released queue heap = (\<lambda>p. if p \<in> set queue then Option.bind (heap p) release_frame else heap p)"

text \<open>The row loop of \<open>copy_rows\<close> again, counted by the rows that are left (\<open>height - y\<close>).\<close>

fun copy_rows_n ::
  "nat \<Rightarrow> nat \<Rightarrow> nat \<Rightarrow> nat \<Rightarrow> nat \<Rightarrow> nat \<Rightarrow> u8 list \<Rightarrow> u8 list \<Rightarrow> u8 list option" where
  "copy_rows_n 0 ls dls sls d s dst src = Some dst"
| "copy_rows_n (Suc n) ls dls sls d s dst src =
     (case memcpy dst d src s ls of
        None \<Rightarrow> None
      | Some dst' \<Rightarrow> copy_rows_n n ls dls sls (d + dls) (s + sls) dst' src)"

text \<open>
  A frame and a slot of 65536 rows of 65536 bytes: planes of \<open>2^32\<close> bytes, all 1 in the
  frame and all 0 in the slot.
\<close>

definition plane_4gib :: "u8 \<Rightarrow> nat \<Rightarrow> u8 list" where
  "plane_4gib b = (\<lambda>i. replicate 4294967296 b)"

definition frame_64k :: obs_source_frame where
  "frame_64k =
     \<lparr>data = plane_4gib 1, linesize = (\<lambda>i. 65536), width = 65536, height = 65536,
      timestamp = 0, format = 0, full_range = False, refs = 0\<rparr>"

definition slot_64k :: video_frame where
  "slot_64k = \<lparr>data_vf = plane_4gib 0, linesize_vf = (\<lambda>i. 65536)\<rparr>"

text \<open>
  The calls that lines 238-268 make for one frame, as a list: the request for a slot for
  \<open>count\<close> ticks at \<open>ts\<close> and, when the slot is granted, the release of the slot with
  plane 0 of the frame copied into it, which hands the frame to the sink. When the sink
  grants no slot the request is the only call; so it is when the copy is undefined
  behaviour.
\<close>

abbreviation slot_calls :: "send_env \<Rightarrow> obs_source_frame \<Rightarrow> c_int \<Rightarrow> u64 \<Rightarrow> api_call list" where
  "slot_calls env frame count ts \<equiv>
     (case slot env of
        None \<Rightarrow> [Video_lock_frame count ts False]
      | Some output_frame \<Rightarrow>
          (case copy_plane frame output_frame of
             None \<Rightarrow> [Video_lock_frame count ts True]
           | Some written \<Rightarrow> [Video_lock_frame count ts True, Video_unlock_frame written]))"

text \<open>
  A session seen from the host: the host makes the calls \<open>events\<close> (frames are delivered
  with \<open>Video\<close>), then the controller runs \<open>thread_main_loop\<close> with the answers \<open>mains\<close>.
  The result is the log of the calls made to libobs, \<open>None\<close> after undefined behaviour.
\<close>

definition session_calls ::
  "host_event list \<Rightarrow> main_env list \<Rightarrow> async_record \<Rightarrow> api_call list option" where
  "session_calls events mains s =
     (case host_steps events s of
        None \<Rightarrow> None
      | Some queued \<Rightarrow>
          (case thread_main_loop mains queued of
             Crashed \<Rightarrow> None
           | Pending s' \<Rightarrow> Some (calls s')
           | Returned u s' \<Rightarrow> Some (calls s')))"

text \<open>The slot of the example sink once plane 0 of \<open>frame_2x2\<close> has been copied into it.\<close>

definition slot_2x2_written :: video_frame where
  "slot_2x2_written = slot_2x2\<lparr>data_vf := (data_vf slot_2x2)(0 := [1, 2, 3, 4])\<rparr>"


section \<open>Teardown (C9)\<close>

text \<open>
  No call from the host, and nothing the controller does while a session runs, changes
  the output handle; \<open>thread_start_loop\<close> returns true only with the handle set.
\<close>

lemma free_video_data_output_handle:
  "free_video_data s = Some s' \<Longrightarrow> output_handle s' = output_handle s"
proof (induction s rule: free_video_data.induct)
  case (1 s)
  show ?case
  proof (cases "video_frames s")
    case Nil
    with "1.prems" show ?thesis by (subst (asm) free_video_data.simps) simp
  next
    case (Cons frame rest)
    show ?thesis
    proof (cases "frames s frame")
      case None
      with Cons "1.prems" show ?thesis by (subst (asm) free_video_data.simps) simp
    next
      case (Some f)
      let ?s1 = "s\<lparr>video_frames := rest,
                    frames := (frames s)(frame :=
                      (if sint (refs f - 1) \<le> 0 then None else Some (f\<lparr>refs := refs f - 1\<rparr>)))\<rparr>"
      have "free_video_data ?s1 = Some s'"
        using "1.prems" Cons Some by (subst (asm) free_video_data.simps) simp
      from "1.IH" [OF Cons Some this] show ?thesis by simp
    qed
  qed
qed

lemma host_step_output_handle:
  assumes "host_step e s = Some s'"
  shows "output_handle s' = output_handle s"
proof (cases e)
  case (Video env frame)
  with assms show ?thesis by (auto simp: async_record_video_def Let_def split: if_splits)
next
  case Tick
  with assms show ?thesis
    by (auto simp: async_record_tick_def Let_def simp del: free_video_data.simps
        split: if_splits dest: free_video_data_output_handle)
next
  case (Update settings)
  with assms show ?thesis
    by (auto simp: async_record_update_def Let_def split: prod.splits if_splits)
next
  case (Enable_changed en)
  with assms show ?thesis by (auto simp: on_enable_changed_def)
next
  case (Stopped code)
  with assms show ?thesis by (auto simp: cb_stopped_def Let_def)
next
  case Remove
  with assms show ?thesis
    by (auto simp: async_record_remove_def simp del: free_video_data.simps
        dest: free_video_data_output_handle)
qed

lemma host_steps_output_handle:
  "host_steps es s = Some s' \<Longrightarrow> output_handle s' = output_handle s"
proof (induction es arbitrary: s)
  case Nil
  then show ?case by simp
next
  case (Cons e es)
  then obtain s1 where a: "host_step e s = Some s1" and b: "host_steps es s1 = Some s'"
    by (auto split: option.splits)
  from Cons.IH [OF b] host_step_output_handle [OF a] show ?case by simp
qed

lemma send_video_output_handle:
  "output_handle (snd (send_video env frame s)) = output_handle s"
  by (simp add: send_video_def lock_and_copy_def Let_def split: option.splits)

lemma thread_main_pass_output_handle:
  assumes "thread_main_pass env s = Returned b s'"
  shows "output_handle s' = output_handle s"
proof (cases "close s \<or> \<not> record_flag s \<or> need_restart s \<or> output_stopped s")
  case True
  with assms show ?thesis by (auto simp: thread_main_pass_def Let_def)
next
  case run: False
  show ?thesis
  proof (cases "video_frames s")
    case Nil
    with run assms obtain e where "main_wakeup env = Some e"
      and "host_step e (s\<lparr>state := running\<rparr>) = Some s'"
      by (auto simp: thread_main_pass_def Let_def split: option.splits)
    from host_step_output_handle [OF this(2)] show ?thesis by simp
  next
    case (Cons frame rest)
    with run assms obtain f where f: "frames s frame = Some f"
      by (auto simp: thread_main_pass_def Let_def split: option.splits)
    let ?r = "send_video (send env) f (s\<lparr>state := running, video_frames := rest\<rparr>)"
    have "host_steps (main_unlocked env) ((snd ?r)\<lparr>frames := (frames (snd ?r))(frame := None)\<rparr>)
            = Some s'"
      using run assms Cons f
      by (auto simp: thread_main_pass_def Let_def
          split: option.splits prod.splits send_outcome.splits)
    from host_steps_output_handle [OF this] send_video_output_handle [of "send env" f]
    show ?thesis by simp
  qed
qed

lemma thread_main_loop_output_handle:
  "thread_main_loop mains s = Returned u s' \<Longrightarrow> output_handle s' = output_handle s"
proof (induction mains arbitrary: s)
  case Nil
  then show ?case by simp
next
  case (Cons env mains)
  from Cons.prems obtain b s1 where p: "thread_main_pass env s = Returned b s1"
    by (auto split: thread_result.splits)
  note h = thread_main_pass_output_handle [OF p]
  show ?case
  proof (cases b)
    case True
    with Cons.prems p h show ?thesis by simp
  next
    case False
    with Cons.prems p have "thread_main_loop mains s1 = Returned u s'" by simp
    from Cons.IH [OF this] h show ?thesis by simp
  qed
qed

lemma thread_start_pass_output_handle:
  "thread_start_pass env s = Returned (Some True) s' \<Longrightarrow> output_handle s' \<noteq> None"
  by (auto simp: thread_start_pass_def Let_def
      split: if_splits option.splits thread_result.splits bool.splits)

lemma thread_start_loop_output_handle:
  "thread_start_loop starts s = Returned True s' \<Longrightarrow> output_handle s' \<noteq> None"
proof (induction starts arbitrary: s)
  case Nil
  then show ?case by simp
next
  case (Cons env starts)
  from Cons.prems obtain r s1 where p: "thread_start_pass env s = Returned r s1"
    by (auto split: thread_result.splits)
  show ?case
  proof (cases r)
    case None
    with Cons.prems p have "thread_start_loop starts s1 = Returned True s'" by simp
    then show ?thesis by (rule Cons.IH)
  next
    case (Some b)
    with Cons.prems p have "b = True" and "s1 = s'" by simp_all
    with p Some show ?thesis by (auto dest: thread_start_pass_output_handle)
  qed
qed

text \<open>
  C9. Teardown with a null output handle changes nothing; running it twice equals running
  it once; afterwards the output handle is null, and so is the sink handle whenever the
  output handle was set at entry. The controller calls teardown at one place (line 334),
  after \<open>thread_start_loop\<close> has returned true and \<open>thread_main_loop\<close> has returned:
  there both handles are null afterwards. The calls made are a force-stop only if the
  output has not signalled its stop, the release of the output, and the close of the sink.
\<close>

theorem C9_teardown:
  "(output_handle s = None \<longrightarrow> thread_close_loop s = s)
   \<and> thread_close_loop (thread_close_loop s) = thread_close_loop s
   \<and> output_handle (thread_close_loop s) = None
   \<and> (output_handle s \<noteq> None \<longrightarrow> video_output (thread_close_loop s) = None)
   \<and> (thread_start_loop starts s0 = Returned True s1
        \<and> thread_main_loop mains s1 = Returned u s \<longrightarrow>
          output_handle (thread_close_loop s) = None
          \<and> video_output (thread_close_loop s) = None)
   \<and> calls (thread_close_loop s) =
       calls s @
       (case output_handle s of
          None \<Rightarrow> []
        | Some out \<Rightarrow>
            (if output_stopped s then [] else [Output_force_stop out])
            @ [Output_release out]
            @ (case video_output s of None \<Rightarrow> [] | Some v \<Rightarrow> [Video_close v]))"
proof -
  have site: "output_handle s \<noteq> None"
    if "thread_start_loop starts s0 = Returned True s1"
      and "thread_main_loop mains s1 = Returned u s"
    using thread_start_loop_output_handle [OF that(1)]
      thread_main_loop_output_handle [OF that(2)] by simp
  have rest: "(output_handle s = None \<longrightarrow> thread_close_loop s = s)
   \<and> thread_close_loop (thread_close_loop s) = thread_close_loop s
   \<and> output_handle (thread_close_loop s) = None
   \<and> (output_handle s \<noteq> None \<longrightarrow> video_output (thread_close_loop s) = None)
   \<and> calls (thread_close_loop s) =
       calls s @
       (case output_handle s of
          None \<Rightarrow> []
        | Some out \<Rightarrow>
            (if output_stopped s then [] else [Output_force_stop out])
            @ [Output_release out]
            @ (case video_output s of None \<Rightarrow> [] | Some v \<Rightarrow> [Video_close v]))"
    by (simp add: thread_close_loop_def Let_def split: option.splits)
  from site rest show ?thesis by blast
qed

theorem C9_teardown_witness:
  "thread_start_loop
     [(start_answers (Some (1, 16670000)) (Some 2) True)
        \<lparr>start_unlocked := [Update (settings_of ''/home'' ''%CCYY-%MM-%DD'' ''mkv'' False)]\<rparr>]
     recording_state
   = Returned True
       (recording_state\<lparr>state := starting, directory := Some ''/home'', need_restart := True,
          video_output := Some 1, last_video_ns := 0, video_frame_interval := 16670000,
          output_handle := Some 2\<rparr>)
   \<and> thread_main_loop [main_answers]
         (recording_state\<lparr>state := starting, directory := Some ''/home'', need_restart := True,
            video_output := Some 1, last_video_ns := 0, video_frame_interval := 16670000,
            output_handle := Some 2\<rparr>)
       = Returned ()
           (recording_state\<lparr>state := running, directory := Some ''/home'', need_restart := True,
              video_output := Some 1, last_video_ns := 0, video_frame_interval := 16670000,
              output_handle := Some 2\<rparr>)
   \<and> output_handle
         (recording_state\<lparr>state := running, directory := Some ''/home'', need_restart := True,
            video_output := Some 1, last_video_ns := 0, video_frame_interval := 16670000,
            output_handle := Some 2\<rparr>) \<noteq> None
   \<and> output_handle (thread_close_loop
         (recording_state\<lparr>state := running, directory := Some ''/home'', need_restart := True,
            video_output := Some 1, last_video_ns := 0, video_frame_interval := 16670000,
            output_handle := Some 2\<rparr>)) = None
   \<and> video_output (thread_close_loop
         (recording_state\<lparr>state := running, directory := Some ''/home'', need_restart := True,
            video_output := Some 1, last_video_ns := 0, video_frame_interval := 16670000,
            output_handle := Some 2\<rparr>)) = None
   \<and> calls (thread_close_loop
         (recording_state\<lparr>state := running, directory := Some ''/home'', need_restart := True,
            video_output := Some 1, last_video_ns := 0, video_frame_interval := 16670000,
            output_handle := Some 2\<rparr>))
       = [Output_force_stop 2, Output_release 2, Video_close 1]
   \<and> output_handle bzalloc_async_record = None
   \<and> thread_close_loop bzalloc_async_record = bzalloc_async_record"
proof -
  let ?e = "(start_answers (Some (1, 16670000)) (Some 2) True)
        \<lparr>start_unlocked := [Update (settings_of ''/home'' ''%CCYY-%MM-%DD'' ''mkv'' False)]\<rparr>"
  let ?s1 = "recording_state\<lparr>state := starting, directory := Some ''/home'', need_restart := True,
          video_output := Some 1, last_video_ns := 0, video_frame_interval := 16670000,
          output_handle := Some 2\<rparr>"
  let ?s2 = "recording_state\<lparr>state := running, directory := Some ''/home'', need_restart := True,
          video_output := Some 1, last_video_ns := 0, video_frame_interval := 16670000,
          output_handle := Some 2\<rparr>"
  have e1: "thread_start_loop [?e] recording_state = Returned True ?s1"
    by (simp add: thread_start_pass_def create_video_output_def start_answers_def
        recording_state_def bzalloc_async_record_def async_record_update_def get_string_def
        settings_of_def Let_def)
  have e2: "thread_main_loop [main_answers] ?s1 = Returned () ?s2"
    by (simp add: thread_main_pass_def main_answers_def recording_state_def
        bzalloc_async_record_def Let_def)
  have n: "output_handle bzalloc_async_record = None"
    by (simp add: bzalloc_async_record_def)
  have c: "calls ?s2 = []" "output_handle ?s2 = Some 2" "video_output ?s2 = Some 1"
    "\<not> output_stopped ?s2"
    by (simp_all add: recording_state_def bzalloc_async_record_def)
  note t = C9_teardown [of ?s2 "[?e]" recording_state ?s1 "[main_answers]" "()"]
  from t e1 e2 have both: "output_handle (thread_close_loop ?s2) = None
          \<and> video_output (thread_close_loop ?s2) = None" by blast
  from t have "calls (thread_close_loop ?s2) =
       calls ?s2 @
       (case output_handle ?s2 of
          None \<Rightarrow> []
        | Some out \<Rightarrow>
            (if output_stopped ?s2 then [] else [Output_force_stop out])
            @ [Output_release out]
            @ (case video_output ?s2 of None \<Rightarrow> [] | Some v \<Rightarrow> [Video_close v]))"
    by blast
  then have log: "calls (thread_close_loop ?s2) = [Output_force_stop 2, Output_release 2, Video_close 1]"
    by (simp add: recording_state_def bzalloc_async_record_def)
  from C9_teardown [of bzalloc_async_record "[]" bzalloc_async_record bzalloc_async_record "[]" "()"] n
  have z: "thread_close_loop bzalloc_async_record = bzalloc_async_record" by blast
  from c(2) have nonnull: "output_handle ?s2 \<noteq> None" by simp
  from e1 e2 nonnull both log n z show ?thesis by blast
qed


section \<open>Retiming (C1 to C4)\<close>

subsection \<open>Arithmetic of the tick count\<close>

text \<open>
  Where the frame is not earlier than \<open>last_video_ns\<close> and the quotient fits a positive
  \<open>int\<close>, the machine arithmetic of \<open>send_video\<close> agrees with integer arithmetic.
\<close>

lemma uint_quotient:
  fixes l ts I :: u64
  assumes "l \<le> ts"
  shows "uint ((ts - l) div I) = (uint ts - uint l) div uint I"
proof -
  from assms have "uint l \<le> uint ts" by (simp add: word_le_def)
  then have "uint (ts - l) = uint ts - uint l" by (simp add: uint_sub_lem)
  then show ?thesis by (simp add: uint_div)
qed

lemma uint_ucast_small:
  fixes q :: u64
  assumes "uint q < 2 ^ 31"
  shows "uint (ucast q :: c_int) = uint q"
proof -
  have "(2::int) ^ 31 \<le> 2 ^ 32" by simp
  with assms have "uint q < 2 ^ 32" by (rule less_le_trans)
  then have "take_bit 32 (uint q) = uint q"
    by (simp add: take_bit_int_eq_self)
  then show ?thesis
    by (simp add: unsigned_ucast_eq)
qed

lemma sint_ucast_small:
  fixes q :: u64
  assumes "uint q < 2 ^ 31"
  shows "sint (ucast q :: c_int) = uint q"
proof -
  have "sint (ucast q :: c_int) = signed_take_bit 31 (uint (ucast q :: c_int))"
    by (simp add: sint_uint)
  also have "\<dots> = signed_take_bit 31 (uint q)"
    using uint_ucast_small [OF assms] by simp
  also have "\<dots> = uint q"
  proof (rule signed_take_bit_int_eq_self)
    have "- (2 ^ 31) \<le> (0::int)" by simp
    then show "- (2 ^ 31) \<le> uint q" using uint_ge_0 [of q] by (rule order_trans)
    show "uint q < 2 ^ 31" by (rule assms)
  qed
  finally show ?thesis .
qed

lemma scast_ucast_small:
  fixes q :: u64
  assumes "uint q < 2 ^ 31"
  shows "(scast (ucast q :: c_int) :: u64) = q"
proof -
  have "(scast (ucast q :: c_int) :: u64) = word_of_int (sint (ucast q :: c_int))"
    by (rule scast_eq)
  also have "\<dots> = word_of_int (uint q)" using sint_ucast_small [OF assms] by simp
  also have "\<dots> = q" by simp
  finally show ?thesis .
qed

lemma uint_advance:
  fixes l ts I :: u64
  assumes "l \<le> ts" and "I \<noteq> 0"
  shows "uint (l + ((ts - l) div I) * I) = uint l + ((uint ts - uint l) div uint I) * uint I"
    and "uint l + ((uint ts - uint l) div uint I) * uint I \<le> uint ts"
    and "0 \<le> (uint ts - uint l) div uint I"
proof -
  let ?q = "(uint ts - uint l) div uint I"
  have le: "uint l \<le> uint ts" using assms by (simp add: word_le_def)
  have "uint I \<noteq> 0" using assms(2) by (simp add: uint_0_iff)
  then have Ipos: "0 < uint I" using uint_ge_0 [of I] by linarith
  show qnn: "0 \<le> ?q" using le Ipos by (simp add: pos_imp_zdiv_nonneg_iff)
  have "?q * uint I \<le> uint ts - uint l" using Ipos
    by (metis mult.commute pos_mod_sign mult_div_mod_eq add_increasing2 order_refl)
  with le show bound: "uint l + ?q * uint I \<le> uint ts" by linarith
  have ts: "uint ts < 2 ^ 64" using uint_lt2p [of ts] by simp
  have nn: "0 \<le> ?q * uint I" using qnn Ipos by simp
  have "?q * uint I < 2 ^ 64" using bound ts uint_ge_0 [of l] by linarith
  then have m: "uint (((ts - l) div I) * I) = ?q * uint I"
    using nn by (simp add: uint_mult_lem [THEN iffD1] uint_quotient [OF assms(1)])
  have "uint l + ?q * uint I < 2 ^ 64" using bound ts by linarith
  then show "uint (l + ((ts - l) div I) * I) = uint l + ?q * uint I"
    using m by (simp add: uint_add_lem [THEN iffD1])
qed

lemma lock_requests_append:
  "lock_requests (xs @ ys) = lock_requests xs @ lock_requests ys"
  by (induction xs rule: lock_requests.induct) simp_all

lemma lock_and_copy_effect:
  "lock_requests (calls (snd (lock_and_copy env frame count ts s)))
     = lock_requests (calls s) @ [(count, ts, slot env \<noteq> None)]
   \<and> last_video_ns (snd (lock_and_copy env frame count ts s)) = last_video_ns s
   \<and> video_frame_interval (snd (lock_and_copy env frame count ts s)) = video_frame_interval s
   \<and> video_output (snd (lock_and_copy env frame count ts s)) = video_output s
   \<and> fst (lock_and_copy env frame count ts s) \<noteq> Too_many_frames"
  by (simp add: lock_and_copy_def lock_requests_append split: option.splits)

subsection \<open>C1: the floor-division rule\<close>

text \<open>The calls made by lines 238-268, in full.\<close>

lemma lock_and_copy_log:
  "calls (snd (lock_and_copy env frame count ts s)) = calls s @ slot_calls env frame count ts"
  by (simp add: lock_and_copy_def split: option.splits)

text \<open>
  Where the unsigned arithmetic of line 227 agrees with integer arithmetic, \<open>send_video\<close>
  follows the floor-division rule. For a frame that reaches the retiming step (sink open
  and not stopped) in a session with a nonzero tick period, when \<open>last_video_ns\<close> is
  nonzero, the frame is not earlier than \<open>last_video_ns\<close> and less than \<open>2^31\<close> tick periods
  later: the count is the floor quotient, \<open>last_video_ns\<close> advances by count times the
  period, the frame is dropped with no call to the sink exactly when the count is \<open>\<le> 0\<close>,
  and otherwise a slot is requested for count ticks at the advanced timestamp, filled and
  released.
\<close>

lemma send_video_floor_division:
  assumes "video_output s \<noteq> None" and "\<not> sink_stopped env"
    and "last_video_ns s \<noteq> 0" and "video_frame_interval s \<noteq> 0"
    and "last_video_ns s \<le> timestamp frame"
    and "(uint (timestamp frame) - uint (last_video_ns s)) div uint (video_frame_interval s) < 2 ^ 31"
  shows "uint (last_video_ns (snd (send_video env frame s)))
           = uint (last_video_ns s)
             + (uint (timestamp frame) - uint (last_video_ns s)) div uint (video_frame_interval s)
               * uint (video_frame_interval s)
         \<and> (fst (send_video env frame s) = Too_many_frames)
             = ((uint (timestamp frame) - uint (last_video_ns s)) div uint (video_frame_interval s) \<le> 0)
         \<and> calls (snd (send_video env frame s))
             = calls s
               @ (if (uint (timestamp frame) - uint (last_video_ns s)) div uint (video_frame_interval s) \<le> 0
                  then []
                  else slot_calls env frame
                         (word_of_int ((uint (timestamp frame) - uint (last_video_ns s))
                                        div uint (video_frame_interval s)))
                         (last_video_ns (snd (send_video env frame s))))"
proof -
  let ?l = "last_video_ns s" and ?ts = "timestamp frame" and ?I = "video_frame_interval s"
  let ?q = "(?ts - ?l) div ?I"
  let ?n = "(uint ?ts - uint ?l) div uint ?I"
  have q: "uint ?q = ?n" by (rule uint_quotient [OF assms(5)])
  with assms(6) have small: "uint ?q < 2 ^ 31" by simp
  have count: "sint (ucast ?q :: c_int) = ?n"
    using sint_ucast_small [OF small] q by simp
  have sext: "(scast (ucast ?q :: c_int) :: u64) = ?q"
    by (rule scast_ucast_small [OF small])
  have adv: "uint (?l + ?q * ?I) = uint ?l + ?n * uint ?I"
    by (rule uint_advance(1) [OF assms(5) assms(4)])
  have w: "(ucast ?q :: c_int) = word_of_int ?n"
  proof -
    have "(ucast ?q :: c_int) = word_of_int (uint ?q)" by (rule ucast_eq)
    then show ?thesis using q by simp
  qed
  from assms(1) obtain v where v: "video_output s = Some v" by auto
  let ?s' = "s\<lparr>last_video_ns := ?l + ?q * ?I\<rparr>"
  have sv: "send_video env frame s
              = (if ?n \<le> 0 then (Too_many_frames, ?s')
                 else lock_and_copy env frame (word_of_int ?n) (?l + ?q * ?I) ?s')"
    using v assms(2-4) count sext w by (simp add: send_video_def Let_def)
  have nt: "fst (lock_and_copy env frame c t r) \<noteq> Too_many_frames" for c t r
    by (simp add: lock_and_copy_effect)
  have lv: "last_video_ns (snd (lock_and_copy env frame c t r)) = last_video_ns r" for c t r
    by (simp add: lock_and_copy_effect)
  have last: "last_video_ns (snd (send_video env frame s)) = ?l + ?q * ?I"
    unfolding sv by (simp add: lv)
  have a: "uint (last_video_ns (snd (send_video env frame s))) = uint ?l + ?n * uint ?I"
    unfolding last by (rule adv)
  have b: "(fst (send_video env frame s) = Too_many_frames) = (?n \<le> 0)"
    unfolding sv by (simp add: nt)
  have c: "calls (snd (send_video env frame s))
             = calls s @ (if ?n \<le> 0 then []
                          else slot_calls env frame (word_of_int ?n)
                                 (last_video_ns (snd (send_video env frame s))))"
    unfolding last unfolding sv by (simp add: lock_and_copy_log)
  from a b c show ?thesis by (intro conjI)
qed

text \<open>
  C1. The code does not follow the rule for a frame that is earlier than \<open>last_video_ns\<close>:
  the subtraction of line 227 is unsigned, and the quotient is cut to 32 bits. In a session
  at 25 frames per second (a period of 40 ms) whose first frame is stamped 1 s, a second
  frame stamped 1 ms earlier has the floor quotient \<open>-1\<close>, so the rule drops it. The code
  counts 1607101170 ticks, moves \<open>last_video_ns\<close> to 64284047.8 s, requests a slot for
  that count at that timestamp, copies the frame into it and releases it. The second part
  is the same run from the host: both frames are delivered by \<open>async_record_video\<close> and
  taken from the queue by \<open>thread_main_loop\<close>.
\<close>

theorem C1_early_frame:
  "(uint (timestamp (frame_2x2 999000000)) - uint (1000000000 :: u64)) div uint (40000000 :: u64) = - 1
   \<and> send_video sink_ready (frame_2x2 999000000)
         ((open_session 40000000)\<lparr>last_video_ns := 1000000000\<rparr>)
       = (Sent, (open_session 40000000)
                  \<lparr>last_video_ns := 64284047800000000,
                   calls := [Video_lock_frame 1607101170 64284047800000000 True,
                             Video_unlock_frame slot_2x2_written]\<rparr>)
   \<and> session_calls
         [Video (video_answers 5 777) (frame_2x2 1000000000),
          Video (video_answers 6 778) (frame_2x2 999000000)]
         [main_answers, main_answers, main_answers] (open_session 40000000)
       = Some [Video_lock_frame 1 1000000000 True, Video_unlock_frame slot_2x2_written,
               Video_lock_frame 1607101170 64284047800000000 True,
               Video_unlock_frame slot_2x2_written]"
proof -
  have quotient: "(uint (timestamp (frame_2x2 999000000)) - uint (1000000000 :: u64))
                    div uint (40000000 :: u64) = - 1"
    by (simp add: frame_2x2_def)
  have direct: "send_video sink_ready (frame_2x2 999000000)
         ((open_session 40000000)\<lparr>last_video_ns := 1000000000\<rparr>)
       = (Sent, (open_session 40000000)
                  \<lparr>last_video_ns := 64284047800000000,
                   calls := [Video_lock_frame 1607101170 64284047800000000 True,
                             Video_unlock_frame slot_2x2_written]\<rparr>)"
    by (simp add: send_video_def lock_and_copy_def copy_plane_def memcpy_def open_session_def
        bzalloc_async_record_def frame_2x2_def slot_2x2_def slot_2x2_written_def sink_ready_def
        Let_def)
  have host: "session_calls
         [Video (video_answers 5 777) (frame_2x2 1000000000),
          Video (video_answers 6 778) (frame_2x2 999000000)]
         [main_answers, main_answers, main_answers] (open_session 40000000)
       = Some [Video_lock_frame 1 1000000000 True, Video_unlock_frame slot_2x2_written,
               Video_lock_frame 1607101170 64284047800000000 True,
               Video_unlock_frame slot_2x2_written]"
    by (simp add: session_calls_def async_record_video_def video_answers_def
        thread_main_pass_def main_answers_def send_video_def lock_and_copy_def copy_plane_def
        memcpy_def open_session_def bzalloc_async_record_def frame_2x2_def slot_2x2_def
        slot_2x2_written_def sink_ready_def Let_def)
  from quotient direct host show ?thesis by (intro conjI)
qed


subsection \<open>C4: two frames 50 ms apart at 60 frames per second\<close>


text \<open>
  A frame that \<open>async_record_video\<close> puts on the queue is not stamped 0 unless the host
  clock reads 0: lines 487-488 replace a zero timestamp.
\<close>

lemma queued_timestamp_nonzero:
  assumes "record_flag s" and "0 < width frame" and "0 < height frame"
    and "video_frame_time env \<noteq> 0"
  shows "video_frames (async_record_video env frame s) = video_frames s @ [created env]
     \<and> (\<exists>f. frames (async_record_video env frame s) (created env) = Some f \<and> timestamp f \<noteq> 0)"
  using assms by (simp add: async_record_video_def Let_def)

text \<open>
  C4. Two frames 50 ms apart in a fresh session at 60 frames per second. The tick period
  that the sink reports for it (16.67 ms) is \<open>1000000000 div 60 = 16666666\<close> ns. The frames
  of a session are not stamped 0, so \<open>t=0\<close> and \<open>t=50ms\<close> are times since the first frame,
  which is stamped \<open>T \<noteq> 0\<close>. The first frame is emitted for 1 tick at \<open>T\<close>. The second is
  not dropped: it is emitted for 3 ticks, at \<open>T\<close> plus 3 periods. Emitted means that the
  slot is requested with that count and timestamp and, once granted, is filled with the
  frame and released.
\<close>

theorem C4_scenario:
  assumes "video_output s \<noteq> None" and "last_video_ns s = 0"
    and "video_frame_interval s = 16666666"
    and "\<not> sink_stopped e1" and "\<not> sink_stopped e2"
    and "timestamp f1 \<noteq> 0"
    and "timestamp f2 = timestamp f1 + 50000000"
  shows "fst (send_video e2 f2 (snd (send_video e1 f1 s))) \<noteq> Too_many_frames
     \<and> calls (send_videos [(e1, f1), (e2, f2)] s)
         = calls s @ slot_calls e1 f1 1 (timestamp f1)
                   @ slot_calls e2 f2 3 (timestamp f1 + 49999998)"
proof -
  let ?s0 = "s\<lparr>last_video_ns := timestamp f1\<rparr>"
  let ?s1 = "snd (send_video e1 f1 s)"
  have nt: "fst (lock_and_copy env frame c t r) \<noteq> Too_many_frames" for env frame c t r
    by (simp add: lock_and_copy_effect)
  from assms(1) obtain v where v: "video_output s = Some v" by auto
  have s1: "?s1 = snd (lock_and_copy e1 f1 1 (timestamp f1) ?s0)"
    using v assms(2,4) by (simp add: send_video_def)
  have out: "video_output ?s1 \<noteq> None"
    and l: "last_video_ns ?s1 = timestamp f1"
    and i: "video_frame_interval ?s1 = 16666666"
    and c1: "calls ?s1 = calls s @ slot_calls e1 f1 1 (timestamp f1)"
    unfolding s1 using assms(1,3) by (simp_all add: lock_and_copy_effect lock_and_copy_log)
  have q: "(ucast ((timestamp f2 - timestamp f1) div (16666666 :: u64)) :: c_int) = 3"
    unfolding assms(7) by simp
  let ?s2 = "?s1\<lparr>last_video_ns := timestamp f1 + 49999998\<rparr>"
  have second: "send_video e2 f2 ?s1 = lock_and_copy e2 f2 3 (timestamp f1 + 49999998) ?s2"
  proof -
    from out obtain v1 where "video_output ?s1 = Some v1" by auto
    then show ?thesis
      using assms(5,6) l i q by (simp add: send_video_def Let_def)
  qed
  have "calls (snd (send_video e2 f2 ?s1))
          = calls ?s1 @ slot_calls e2 f2 3 (timestamp f1 + 49999998)"
    unfolding second by (simp add: lock_and_copy_log)
  with c1 have log: "calls (send_videos [(e1, f1), (e2, f2)] s)
         = calls s @ slot_calls e1 f1 1 (timestamp f1)
                   @ slot_calls e2 f2 3 (timestamp f1 + 49999998)"
    by simp
  have kept: "fst (send_video e2 f2 ?s1) \<noteq> Too_many_frames"
    unfolding second by (rule nt)
  from kept log show ?thesis by (rule conjI)
qed

theorem C4_scenario_witness:
  "video_output (open_session 16666666) \<noteq> None \<and> last_video_ns (open_session 16666666) = 0
   \<and> video_frame_interval (open_session 16666666) = 16666666
   \<and> \<not> sink_stopped sink_ready
   \<and> timestamp (frame_2x2 1000000000) \<noteq> 0
   \<and> timestamp (frame_2x2 1050000000) = timestamp (frame_2x2 1000000000) + 50000000
   \<and> calls (send_videos
        [(sink_ready, frame_2x2 1000000000), (sink_ready, frame_2x2 1050000000)]
        (open_session 16666666))
       = [Video_lock_frame 1 1000000000 True, Video_unlock_frame slot_2x2_written,
          Video_lock_frame 3 1049999998 True, Video_unlock_frame slot_2x2_written]"
proof -
  have h1: "video_output (open_session 16666666) \<noteq> None"
    and h2: "last_video_ns (open_session 16666666) = 0"
    and h3: "video_frame_interval (open_session 16666666) = 16666666"
    and h4: "\<not> sink_stopped sink_ready"
    and h5: "timestamp (frame_2x2 1000000000) \<noteq> 0"
    and h6: "timestamp (frame_2x2 1050000000) = timestamp (frame_2x2 1000000000) + 50000000"
    by (simp_all add: open_session_def bzalloc_async_record_def sink_ready_def frame_2x2_def)
  have e: "calls (open_session 16666666) = []" "slot sink_ready = Some slot_2x2"
    "timestamp (frame_2x2 1000000000) = 1000000000"
    "copy_plane (frame_2x2 1000000000) slot_2x2 = Some slot_2x2_written"
    "copy_plane (frame_2x2 1050000000) slot_2x2 = Some slot_2x2_written"
    by (simp_all add: open_session_def bzalloc_async_record_def sink_ready_def frame_2x2_def
        copy_plane_def memcpy_def slot_2x2_def slot_2x2_written_def)
  from C4_scenario [OF h1 h2 h3 h4 h4 h5 h6]
  have "calls (send_videos
        [(sink_ready, frame_2x2 1000000000), (sink_ready, frame_2x2 1050000000)]
        (open_session 16666666))
       = calls (open_session 16666666)
         @ slot_calls sink_ready (frame_2x2 1000000000) 1 (timestamp (frame_2x2 1000000000))
         @ slot_calls sink_ready (frame_2x2 1050000000) 3
             (timestamp (frame_2x2 1000000000) + 49999998)"
    by (rule conjunct2)
  then have "calls (send_videos
        [(sink_ready, frame_2x2 1000000000), (sink_ready, frame_2x2 1050000000)]
        (open_session 16666666))
       = [Video_lock_frame 1 1000000000 True, Video_unlock_frame slot_2x2_written,
          Video_lock_frame 3 1049999998 True, Video_unlock_frame slot_2x2_written]"
    using e by simp
  with h1 h2 h3 h4 h5 h6 show ?thesis by (intro conjI)
qed


subsection \<open>Sessions: \<open>last_video_ns\<close> never decreases\<close>

text \<open>
  One call of \<open>send_video\<close>, for a frame that is not earlier than \<open>last_video_ns\<close> and
  less than \<open>2^31\<close> periods later (or with \<open>last_video_ns = 0\<close>): \<open>last_video_ns\<close> does not
  decrease and stays at or below the frame's timestamp, and a request made to the sink
  carries the new \<open>last_video_ns\<close>. A session of such calls follows by induction on the
  frames, with the state generalised.
\<close>

lemma quotient_bound:
  fixes a I k :: int
  assumes "0 < I" and "a < k * I"
  shows "a div I < k"
proof -
  have "a div I * I + a mod I = a" by simp
  moreover have "0 \<le> a mod I" using assms(1) by simp
  ultimately have "a div I * I \<le> a" by linarith
  with assms(2) have "a div I * I < k * I" by linarith
  then show ?thesis using assms(1) by (simp add: mult_less_cancel_right_disj)
qed

lemma lock_and_copy_calls:
  "\<exists>new. calls (snd (lock_and_copy env frame count ts s)) = calls s @ new
         \<and> lock_requests new = [(count, ts, slot env \<noteq> None)]"
  by (simp add: lock_and_copy_def split: option.splits)

lemma send_video_step:
  assumes I: "video_frame_interval s \<noteq> 0"
    and ok: "last_video_ns s = 0 \<or>
             (last_video_ns s \<le> timestamp frame \<and>
              (uint (timestamp frame) - uint (last_video_ns s)) div uint (video_frame_interval s) < 2 ^ 31)"
  shows "last_video_ns s \<le> last_video_ns (snd (send_video env frame s))"
    and "last_video_ns (snd (send_video env frame s)) \<le> timestamp frame"
    and "last_video_ns s = 0 \<Longrightarrow> last_video_ns (snd (send_video env frame s)) = 0
           \<or> last_video_ns (snd (send_video env frame s)) = timestamp frame"
    and "video_frame_interval (snd (send_video env frame s)) = video_frame_interval s"
    and "\<exists>new. calls (snd (send_video env frame s)) = calls s @ new
           \<and> (\<forall>r\<in>set (lock_requests new). fst (snd r) = last_video_ns (snd (send_video env frame s)))"
proof -
  let ?s1 = "snd (send_video env frame s)"
  let ?l = "last_video_ns s" and ?ts = "timestamp frame" and ?I = "video_frame_interval s"
  let ?q = "(?ts - ?l) div ?I"
  have all: "?l \<le> last_video_ns ?s1 \<and> last_video_ns ?s1 \<le> ?ts
       \<and> (?l = 0 \<longrightarrow> last_video_ns ?s1 = 0 \<or> last_video_ns ?s1 = ?ts)
       \<and> video_frame_interval ?s1 = ?I
       \<and> (\<exists>new. calls ?s1 = calls s @ new
           \<and> (\<forall>r\<in>set (lock_requests new). fst (snd r) = last_video_ns ?s1))"
  proof (cases "video_output s = None \<or> sink_stopped env")
    case True
    then have "?s1 = s" by (auto simp: send_video_def)
    moreover have "?l \<le> ?ts" using ok by auto
    ultimately show ?thesis by simp
  next
    case avail: False
    show ?thesis
    proof (cases "?l = 0")
      case True
      obtain new where new: "calls (snd (lock_and_copy env frame 1 ?ts (s\<lparr>last_video_ns := ?ts\<rparr>)))
                = calls s @ new" "lock_requests new = [(1, ?ts, slot env \<noteq> None)]"
        using lock_and_copy_calls [of env frame 1 ?ts "s\<lparr>last_video_ns := ?ts\<rparr>"] by auto
      have eq: "?s1 = snd (lock_and_copy env frame 1 ?ts (s\<lparr>last_video_ns := ?ts\<rparr>))"
        using avail True by (auto simp: send_video_def)
      have l1: "last_video_ns ?s1 = ?ts" and i1: "video_frame_interval ?s1 = ?I"
        unfolding eq by (simp_all add: lock_and_copy_effect)
      have c1: "calls ?s1 = calls s @ new" unfolding eq by (rule new(1))
      show ?thesis using True l1 i1 c1 new(2) by auto
    next
      case False
      with ok have le: "?l \<le> ?ts"
        and small: "(uint ?ts - uint ?l) div uint ?I < 2 ^ 31" by auto
      have q: "uint ?q = (uint ?ts - uint ?l) div uint ?I" by (rule uint_quotient [OF le])
      with small have qs: "uint ?q < 2 ^ 31" by simp
      have sext: "(scast (ucast ?q :: c_int) :: u64) = ?q" by (rule scast_ucast_small [OF qs])
      note adv = uint_advance [OF le I]
      have up: "?l \<le> ?l + ?q * ?I"
      proof -
        have "uint ?I \<ge> 0" by simp
        with adv(3) have "0 \<le> (uint ?ts - uint ?l) div uint ?I * uint ?I" by simp
        with adv(1) show ?thesis by (simp add: word_le_def)
      qed
      have down: "?l + ?q * ?I \<le> ?ts" using adv(1) adv(2) by (simp add: word_le_def)
      show ?thesis
      proof (cases "sint (ucast ?q :: c_int) \<le> 0")
        case True
        then have "?s1 = s\<lparr>last_video_ns := ?l + ?q * ?I\<rparr>"
          using avail False I sext by (auto simp: send_video_def Let_def)
        then show ?thesis using up down False by simp
      next
        case pos: False
        let ?s' = "s\<lparr>last_video_ns := ?l + ?q * ?I\<rparr>"
        obtain new where new: "calls (snd (lock_and_copy env frame (ucast ?q) (?l + ?q * ?I) ?s'))
                = calls ?s' @ new" "lock_requests new = [(ucast ?q, ?l + ?q * ?I, slot env \<noteq> None)]"
          using lock_and_copy_calls [of env frame "ucast ?q" "?l + ?q * ?I" ?s'] by auto
        have eq: "?s1 = snd (lock_and_copy env frame (ucast ?q) (?l + ?q * ?I) ?s')"
          using avail False I sext pos by (auto simp: send_video_def Let_def)
        have l1: "last_video_ns ?s1 = ?l + ?q * ?I" and i1: "video_frame_interval ?s1 = ?I"
          unfolding eq by (simp_all add: lock_and_copy_effect)
        have c1: "calls ?s1 = calls s @ new" unfolding eq using new(1) by simp
        show ?thesis using False l1 i1 c1 new(2) up down by auto
      qed
    qed
  qed
  from all show "last_video_ns s \<le> last_video_ns ?s1" by simp
  from all show "last_video_ns ?s1 \<le> timestamp frame" by simp
  from all show "last_video_ns s = 0 \<Longrightarrow> last_video_ns ?s1 = 0 \<or> last_video_ns ?s1 = timestamp frame" by simp
  from all show "video_frame_interval ?s1 = video_frame_interval s" by simp
  from all show "\<exists>new. calls ?s1 = calls s @ new
           \<and> (\<forall>r\<in>set (lock_requests new). fst (snd r) = last_video_ns ?s1)" by simp
qed


lemma sorted_constant:
  fixes f :: "'a \<Rightarrow> u64"
  shows "\<forall>r\<in>set xs. f r = c \<Longrightarrow> sorted (map f xs)"
  by (induction xs) auto

lemma last_video_trace_hd:
  "last_video_trace inputs s \<noteq> [] \<and> hd (last_video_trace inputs s) = last_video_ns s"
  by (cases inputs) auto

lemma session_monotone:
  assumes "video_frame_interval s \<noteq> 0"
    and "sorted (map (\<lambda>x. timestamp (snd x)) inputs)"
    and "\<forall>x\<in>set inputs. last_video_ns s \<le> timestamp (snd x)"
    and "\<forall>x\<in>set inputs. lo \<le> timestamp (snd x)
           \<and> uint (timestamp (snd x)) - uint lo < 2 ^ 31 * uint (video_frame_interval s)"
    and "last_video_ns s = 0 \<or> lo \<le> last_video_ns s"
  shows "sorted (last_video_trace inputs s)
     \<and> (\<exists>new. calls (send_videos inputs s) = calls s @ new
           \<and> sorted (map (\<lambda>r. fst (snd r)) (lock_requests new))
           \<and> (\<forall>r\<in>set (lock_requests new). last_video_ns s \<le> fst (snd r)))"
  using assms
proof (induction inputs arbitrary: s)
  case Nil
  then show ?case by simp
next
  case (Cons x rest)
  obtain env frame where x: "x = (env, frame)" by (cases x)
  let ?s1 = "snd (send_video env frame s)"
  let ?I = "video_frame_interval s"
  have I: "?I \<noteq> 0" by (rule Cons.prems(1))
  then have "uint ?I \<noteq> 0" by (simp add: uint_0_iff)
  then have Ipos: "0 < uint ?I" using uint_ge_0 [of ?I] by linarith
  have le: "last_video_ns s \<le> timestamp frame" using Cons.prems(3) x by simp
  have lo: "lo \<le> timestamp frame"
    and span: "uint (timestamp frame) - uint lo < 2 ^ 31 * uint ?I"
    using Cons.prems(4) x by simp_all
  have ok: "last_video_ns s = 0 \<or>
             (last_video_ns s \<le> timestamp frame \<and>
              (uint (timestamp frame) - uint (last_video_ns s)) div uint ?I < 2 ^ 31)"
  proof (cases "last_video_ns s = 0")
    case True
    then show ?thesis by simp
  next
    case False
    with Cons.prems(5) have "lo \<le> last_video_ns s" by simp
    then have "uint lo \<le> uint (last_video_ns s)" by (simp add: word_le_def)
    with span have "uint (timestamp frame) - uint (last_video_ns s) < 2 ^ 31 * uint ?I"
      by linarith
    from quotient_bound [OF Ipos this] le show ?thesis by simp
  qed
  note step = send_video_step [OF I ok, of env]
  have I1: "video_frame_interval ?s1 \<noteq> 0" using step(4) I by simp
  have sorted1: "sorted (map (\<lambda>x. timestamp (snd x)) rest)"
    using Cons.prems(2) by simp
  have above: "\<forall>y\<in>set rest. timestamp frame \<le> timestamp (snd y)"
    using Cons.prems(2) x by simp
  have le1: "\<forall>y\<in>set rest. last_video_ns ?s1 \<le> timestamp (snd y)"
    using above step(2) by (meson order_trans)
  have span1: "\<forall>y\<in>set rest. lo \<le> timestamp (snd y)
           \<and> uint (timestamp (snd y)) - uint lo < 2 ^ 31 * uint (video_frame_interval ?s1)"
    using Cons.prems(4) step(4) by simp
  have lo1: "last_video_ns ?s1 = 0 \<or> lo \<le> last_video_ns ?s1"
  proof (cases "last_video_ns s = 0")
    case True
    from step(3) [OF this] lo show ?thesis by auto
  next
    case False
    with Cons.prems(5) have "lo \<le> last_video_ns s" by simp
    with step(1) show ?thesis by (meson order_trans)
  qed
  note IH = Cons.IH [OF I1 sorted1 le1 span1 lo1]
  from IH obtain new1 where new1: "calls (send_videos rest ?s1) = calls ?s1 @ new1"
    "sorted (map (\<lambda>r. fst (snd r)) (lock_requests new1))"
    "\<forall>r\<in>set (lock_requests new1). last_video_ns ?s1 \<le> fst (snd r)" by auto
  from step(5) obtain new0 where new0: "calls ?s1 = calls s @ new0"
    "\<forall>r\<in>set (lock_requests new0). fst (snd r) = last_video_ns ?s1" by auto
  have tr: "sorted (last_video_trace (x # rest) s)"
  proof -
    have "sorted (last_video_trace rest ?s1)" using IH by simp
    moreover have "\<forall>y\<in>set (last_video_trace rest ?s1). last_video_ns s \<le> y"
    proof
      fix y assume y: "y \<in> set (last_video_trace rest ?s1)"
      have "hd (last_video_trace rest ?s1) \<le> y"
        using \<open>sorted (last_video_trace rest ?s1)\<close> y last_video_trace_hd [of rest ?s1]
        by (metis list.collapse set_ConsD sorted_simps(2) order_refl)
      then show "last_video_ns s \<le> y"
        using step(1) last_video_trace_hd [of rest ?s1] by (metis order_trans)
    qed
    ultimately show ?thesis using x by simp
  qed
  have c: "calls (send_videos (x # rest) s) = calls s @ (new0 @ new1)"
    using x new0(1) new1(1) by simp
  have s: "sorted (map (\<lambda>r. fst (snd r)) (lock_requests (new0 @ new1)))"
    using new0(2) new1(2) new1(3) sorted_constant [OF new0(2)]
    by (auto simp: lock_requests_append sorted_append)
  have b: "\<forall>r\<in>set (lock_requests (new0 @ new1)). last_video_ns s \<le> fst (snd r)"
  proof
    fix r assume "r \<in> set (lock_requests (new0 @ new1))"
    then consider "r \<in> set (lock_requests new0)" | "r \<in> set (lock_requests new1)"
      by (auto simp: lock_requests_append)
    then show "last_video_ns s \<le> fst (snd r)"
    proof cases
      case 1
      then show ?thesis using new0(2) step(1) by simp
    next
      case 2
      then have "last_video_ns ?s1 \<le> fst (snd r)" using new1(3) by simp
      with step(1) show ?thesis by (meson order_trans)
    qed
  qed
  from tr c s b show ?case by blast
qed


lemma presented_sorted:
  assumes "sorted (map (\<lambda>r. fst (snd r)) (lock_requests new))"
  shows "sorted (map snd (presented new))"
proof -
  have "map snd (presented new)
          = map (\<lambda>r. fst (snd r)) (filter (\<lambda>(count, ts, granted). granted) (lock_requests new))"
    by (simp add: presented_def split_def)
  then show ?thesis using assms by (simp add: sorted_filter)
qed

text \<open>No call from the host changes \<open>last_video_ns\<close>.\<close>

lemma free_video_data_last_video_ns:
  "free_video_data s = Some s' \<Longrightarrow> last_video_ns s' = last_video_ns s"
proof (induction s rule: free_video_data.induct)
  case (1 s)
  show ?case
  proof (cases "video_frames s")
    case Nil
    with "1.prems" show ?thesis by (subst (asm) free_video_data.simps) simp
  next
    case (Cons frame rest)
    show ?thesis
    proof (cases "frames s frame")
      case None
      with Cons "1.prems" show ?thesis by (subst (asm) free_video_data.simps) simp
    next
      case (Some f)
      let ?s1 = "s\<lparr>video_frames := rest,
                    frames := (frames s)(frame :=
                      (if sint (refs f - 1) \<le> 0 then None else Some (f\<lparr>refs := refs f - 1\<rparr>)))\<rparr>"
      have "free_video_data ?s1 = Some s'"
        using "1.prems" Cons Some by (subst (asm) free_video_data.simps) simp
      from "1.IH" [OF Cons Some this] show ?thesis by simp
    qed
  qed
qed

lemma host_step_last_video_ns:
  "host_step e s = Some s' \<Longrightarrow> last_video_ns s' = last_video_ns s"
proof (cases e)
  case (Video env frame)
  assume "host_step e s = Some s'"
  with Video show ?thesis by (auto simp: async_record_video_def Let_def split: if_splits)
next
  case Tick
  assume "host_step e s = Some s'"
  with Tick show ?thesis
    by (auto simp: async_record_tick_def Let_def simp del: free_video_data.simps
        split: if_splits dest: free_video_data_last_video_ns)
next
  case (Update settings)
  assume "host_step e s = Some s'"
  with Update show ?thesis
    by (auto simp: async_record_update_def Let_def split: prod.splits if_splits)
next
  case (Enable_changed en)
  assume "host_step e s = Some s'"
  with Enable_changed show ?thesis by (auto simp: on_enable_changed_def)
next
  case (Stopped code)
  assume "host_step e s = Some s'"
  with Stopped show ?thesis by (auto simp: cb_stopped_def Let_def)
next
  case Remove
  assume "host_step e s = Some s'"
  with Remove show ?thesis
    by (auto simp: async_record_remove_def simp del: free_video_data.simps
        dest: free_video_data_last_video_ns)
qed

subsection \<open>C2: emission timestamps within a session\<close>

text \<open>
  C2, as the claim states it, fails when a frame arrives \<open>2^31\<close> tick periods or more after
  \<open>last_video_ns\<close>: the count is cut to 32 bits. At a period of 16666667 ns, three
  frames with strictly increasing timestamps are presented at 35791394849162216 and then
  at 16667667.
\<close>

theorem C2_monotone_counterexample:
  "last_video_ns (open_session 16666667) = 0
   \<and> sorted_wrt (<) [35791394849162216, 71582789698323432, 71582789714990099 :: u64]
   \<and> presented (calls (send_videos
         [(sink_ready, frame_2x2 35791394849162216),
          (sink_ready, frame_2x2 71582789698323432),
          (sink_ready, frame_2x2 71582789714990099)] (open_session 16666667)))
       = [(1, 35791394849162216), (1, 16667667)]
   \<and> \<not> sorted [35791394849162216, 16667667 :: u64]"
  by code_simp

text \<open>
  C2, amended. In a fresh session (\<open>last_video_ns = 0\<close>) with a nonzero tick period, for
  frames with strictly increasing timestamps that all lie less than \<open>2^31\<close> tick periods
  after the first one: the emission timestamps of the presented frames are non-decreasing
  and \<open>last_video_ns\<close> never decreases during the session. A successful
  \<open>create_video_output\<close> (the start of a session) leaves it at 0; no call from the host
  and no teardown changes it.
\<close>

theorem C2_monotone:
  assumes "last_video_ns s = 0" and "video_frame_interval s \<noteq> 0"
    and "sorted_wrt (<) (map (\<lambda>x. timestamp (snd x)) inputs)"
    and "\<forall>x\<in>set inputs. uint (timestamp (snd x)) - uint (timestamp (snd (hd inputs)))
                            < 2 ^ 31 * uint (video_frame_interval s)"
  shows "sorted (map snd (presented (calls_since s (send_videos inputs s))))
     \<and> sorted (last_video_trace inputs s)
     \<and> (create_video_output env s0 = Returned True s1 \<longrightarrow> last_video_ns s1 = 0)
     \<and> (host_step e h0 = Some h1 \<longrightarrow> last_video_ns h1 = last_video_ns h0)
     \<and> last_video_ns (thread_close_loop h0) = last_video_ns h0"
proof -
  let ?lo = "timestamp (snd (hd inputs))"
  have sorted: "sorted (map (\<lambda>x. timestamp (snd x)) inputs)"
    using assms(3) by (rule sorted_wrt_mono_rel [rotated]) simp
  have zero: "\<forall>x\<in>set inputs. last_video_ns s \<le> timestamp (snd x)"
    using assms(1) by simp
  have lo: "\<forall>x\<in>set inputs. ?lo \<le> timestamp (snd x)"
    using sorted by (cases inputs) auto
  with assms(4) have span: "\<forall>x\<in>set inputs. ?lo \<le> timestamp (snd x)
           \<and> uint (timestamp (snd x)) - uint ?lo < 2 ^ 31 * uint (video_frame_interval s)"
    by simp
  have start: "last_video_ns s = 0 \<or> ?lo \<le> last_video_ns s" using assms(1) by simp
  from session_monotone [OF assms(2) sorted zero span start]
  obtain new where tr: "sorted (last_video_trace inputs s)"
    and new: "calls (send_videos inputs s) = calls s @ new"
      "sorted (map (\<lambda>r. fst (snd r)) (lock_requests new))" by auto
  have "calls_since s (send_videos inputs s) = new"
    using new(1) by (simp add: calls_since_def)
  then have "sorted (map snd (presented (calls_since s (send_videos inputs s))))"
    using presented_sorted [OF new(2)] by simp
  moreover have "create_video_output env s0 = Returned True s1 \<longrightarrow> last_video_ns s1 = 0"
    by (auto simp: create_video_output_def split: thread_result.splits option.splits)
  moreover have "host_step e h0 = Some h1 \<longrightarrow> last_video_ns h1 = last_video_ns h0"
    by (simp add: host_step_last_video_ns)
  moreover have "last_video_ns (thread_close_loop h0) = last_video_ns h0"
    by (simp add: thread_close_loop_def Let_def split: option.splits)
  ultimately show ?thesis using tr by simp
qed

theorem C2_monotone_witness:
  "last_video_ns (open_session 16670000) = 0
   \<and> video_frame_interval (open_session 16670000) \<noteq> 0
   \<and> sorted_wrt (<) (map (\<lambda>x. timestamp (snd x))
         [(sink_ready, frame_2x2 1000000000), (sink_ready, frame_2x2 1050000000),
          (sink_ready, frame_2x2 1051000000)])
   \<and> sorted (map snd (presented (calls_since (open_session 16670000)
         (send_videos [(sink_ready, frame_2x2 1000000000), (sink_ready, frame_2x2 1050000000),
                       (sink_ready, frame_2x2 1051000000)] (open_session 16670000)))))
   \<and> sorted (last_video_trace [(sink_ready, frame_2x2 1000000000),
         (sink_ready, frame_2x2 1050000000), (sink_ready, frame_2x2 1051000000)]
         (open_session 16670000))
   \<and> create_video_output (start_answers (Some (1, 16670000)) (Some 2) True) recording_state
       = Returned True (recording_state\<lparr>video_output := Some 1, last_video_ns := 0,
                                         video_frame_interval := 16670000\<rparr>)
   \<and> last_video_ns (recording_state\<lparr>video_output := Some 1, last_video_ns := 0,
                                     video_frame_interval := 16670000\<rparr>) = 0
   \<and> host_step (Enable_changed False) recording_state
       = Some (recording_state\<lparr>enabled := False\<rparr>)
   \<and> last_video_ns (recording_state\<lparr>enabled := False\<rparr>) = last_video_ns recording_state"
proof -
  let ?inputs = "[(sink_ready, frame_2x2 1000000000), (sink_ready, frame_2x2 1050000000),
                  (sink_ready, frame_2x2 1051000000)]"
  let ?s = "open_session 16670000"
  have h1: "last_video_ns ?s = 0" and h2: "video_frame_interval ?s \<noteq> 0"
    and h3: "sorted_wrt (<) (map (\<lambda>x. timestamp (snd x)) ?inputs)"
    and h4: "\<forall>x\<in>set ?inputs. uint (timestamp (snd x)) - uint (timestamp (snd (hd ?inputs)))
                            < 2 ^ 31 * uint (video_frame_interval ?s)"
    by (simp_all add: open_session_def bzalloc_async_record_def frame_2x2_def)
  have c: "create_video_output (start_answers (Some (1, 16670000)) (Some 2) True) recording_state
       = Returned True (recording_state\<lparr>video_output := Some 1, last_video_ns := 0,
                                         video_frame_interval := 16670000\<rparr>)"
    by (simp add: create_video_output_def start_answers_def recording_state_def
        bzalloc_async_record_def)
  have e: "host_step (Enable_changed False) recording_state
             = Some (recording_state\<lparr>enabled := False\<rparr>)"
    by (simp add: on_enable_changed_def)
  from C2_monotone [OF h1 h2 h3 h4, of "start_answers (Some (1, 16670000)) (Some 2) True"
      recording_state "recording_state\<lparr>video_output := Some 1, last_video_ns := 0,
                                         video_frame_interval := 16670000\<rparr>"
      "Enable_changed False" recording_state "recording_state\<lparr>enabled := False\<rparr>"]
  show ?thesis using h1 h2 h3 c e by simp
qed

subsection \<open>C3: the first frame of a session\<close>





section \<open>Settings updates (C6)\<close>

text \<open>
  C6, as the claim states it, fails: a call of \<open>async_record_update\<close> that changes none of
  the three strings leaves \<open>failed\<close> set.
\<close>

theorem C6_update_counterexample:
  "failed (recording_state\<lparr>failed := True\<rparr>)
   \<and> failed (async_record_update (settings_of ''/tmp'' ''%CCYY-%MM-%DD'' ''mkv'' True)
         (recording_state\<lparr>failed := True\<rparr>))"
  by (simp add: async_record_update_def get_string_def settings_of_def recording_state_def
      bzalloc_async_record_def)

text \<open>
  C6, amended. Every call of \<open>async_record_update\<close> stores the three strings and the
  overwrite-timestamp option. If directory, filename template or extension differs from
  the stored value (a null stored value always differs), the call clears \<open>failed\<close> and sets
  \<open>need_restart\<close>, so the failure flag no longer gates the next session; if none of them
  changed, both flags stay as they were.
\<close>

theorem C6_update:
  "directory (async_record_update settings s) = Some (obs_data_get_string settings ''directory'')
   \<and> filename_format (async_record_update settings s)
       = Some (obs_data_get_string settings ''filename_format'')
   \<and> extension (async_record_update settings s) = Some (obs_data_get_string settings ''extension'')
   \<and> overwrite_timestamp (async_record_update settings s)
       = obs_data_get_bool settings ''overwrite_timestamp''
   \<and> (directory s \<noteq> Some (obs_data_get_string settings ''directory'')
        \<or> filename_format s \<noteq> Some (obs_data_get_string settings ''filename_format'')
        \<or> extension s \<noteq> Some (obs_data_get_string settings ''extension'')
       \<longrightarrow> \<not> failed (async_record_update settings s)
           \<and> need_restart (async_record_update settings s))
   \<and> (directory s = Some (obs_data_get_string settings ''directory'')
        \<and> filename_format s = Some (obs_data_get_string settings ''filename_format'')
        \<and> extension s = Some (obs_data_get_string settings ''extension'')
       \<longrightarrow> failed (async_record_update settings s) = failed s
           \<and> need_restart (async_record_update settings s) = need_restart s)"
  by (auto simp: async_record_update_def get_string_def Let_def split: prod.splits if_splits)

theorem C6_update_witness:
  "directory (recording_state\<lparr>failed := True\<rparr>)
     \<noteq> Some (obs_data_get_string (settings_of ''/home'' ''%CCYY-%MM-%DD'' ''mkv'' False) ''directory'')
   \<and> \<not> failed (async_record_update (settings_of ''/home'' ''%CCYY-%MM-%DD'' ''mkv'' False)
         (recording_state\<lparr>failed := True\<rparr>))
   \<and> need_restart (async_record_update (settings_of ''/home'' ''%CCYY-%MM-%DD'' ''mkv'' False)
         (recording_state\<lparr>failed := True\<rparr>))
   \<and> directory (recording_state\<lparr>failed := True\<rparr>)
       = Some (obs_data_get_string (settings_of ''/tmp'' ''%CCYY-%MM-%DD'' ''mkv'' True) ''directory'')
   \<and> filename_format (recording_state\<lparr>failed := True\<rparr>)
       = Some (obs_data_get_string (settings_of ''/tmp'' ''%CCYY-%MM-%DD'' ''mkv'' True) ''filename_format'')
   \<and> extension (recording_state\<lparr>failed := True\<rparr>)
       = Some (obs_data_get_string (settings_of ''/tmp'' ''%CCYY-%MM-%DD'' ''mkv'' True) ''extension'')
   \<and> failed (async_record_update (settings_of ''/tmp'' ''%CCYY-%MM-%DD'' ''mkv'' True)
         (recording_state\<lparr>failed := True\<rparr>))
   \<and> \<not> need_restart (async_record_update (settings_of ''/tmp'' ''%CCYY-%MM-%DD'' ''mkv'' True)
         (recording_state\<lparr>failed := True\<rparr>))"
  using C6_update [of "settings_of ''/home'' ''%CCYY-%MM-%DD'' ''mkv'' False"
      "recording_state\<lparr>failed := True\<rparr>"]
    C6_update [of "settings_of ''/tmp'' ''%CCYY-%MM-%DD'' ''mkv'' True"
      "recording_state\<lparr>failed := True\<rparr>"]
  by (simp add: settings_of_def recording_state_def bzalloc_async_record_def)

section \<open>Frame delivery (C10)\<close>

text \<open>
  C10. While \<open>record\<close> is set, a delivered frame of nonzero width and height is copied and
  the pointer to the copy is appended to the queue; the copy carries the host video-frame
  time if the incoming timestamp is 0 (whatever the overwrite-timestamp option says) or
  if the option is set, and the incoming timestamp otherwise. A frame of zero width or
  height is not queued.
\<close>

theorem C10_deliver_frame:
  assumes "record_flag s"
  shows "(0 < width frame \<and> 0 < height frame \<longrightarrow>
            video_frames (async_record_video env frame s) = video_frames s @ [created env]
            \<and> map_option timestamp (frames (async_record_video env frame s) (created env))
                = Some (if timestamp frame = 0 then video_frame_time env
                        else if overwrite_timestamp s then video_frame_time env
                        else timestamp frame))
         \<and> (\<not> (0 < width frame \<and> 0 < height frame) \<longrightarrow> async_record_video env frame s = s)"
  using assms by (simp add: async_record_video_def Let_def)

theorem C10_deliver_frame_witness:
  "record_flag recording_state \<and> 0 < width (frame_2x2 0) \<and> 0 < height (frame_2x2 0)
   \<and> \<not> overwrite_timestamp recording_state
   \<and> video_frames (async_record_video (video_answers 6 123456) (frame_2x2 0) recording_state)
       = [5, 6]
   \<and> map_option timestamp
        (frames (async_record_video (video_answers 6 123456) (frame_2x2 0) recording_state) 6)
       = Some 123456
   \<and> map_option timestamp
        (frames (async_record_video (video_answers 6 123456) (frame_2x2 77) recording_state) 6)
       = Some 77
   \<and> \<not> 0 < width ((frame_2x2 77)\<lparr>width := 0\<rparr>)
   \<and> async_record_video (video_answers 6 123456) ((frame_2x2 77)\<lparr>width := 0\<rparr>) recording_state
       = recording_state"
proof -
  have r: "record_flag recording_state"
    by (simp add: recording_state_def bzalloc_async_record_def)
  show ?thesis
    using C10_deliver_frame [OF r, of "frame_2x2 0" "video_answers 6 123456"]
      C10_deliver_frame [OF r, of "frame_2x2 77" "video_answers 6 123456"]
      C10_deliver_frame [OF r, of "(frame_2x2 77)\<lparr>width := 0\<rparr>" "video_answers 6 123456"]
    by (simp add: recording_state_def bzalloc_async_record_def frame_2x2_def video_answers_def)
qed

section \<open>Draining the queue (C7)\<close>

text \<open>
  \<open>free_video_data\<close> on a queue of distinct live pointers: it does not fail, empties the
  queue, and leaves on the heap what \<open>released\<close> describes. Induction on the queue, with the
  state generalised.
\<close>

lemma free_video_data_result:
  assumes "distinct (video_frames s)" and "\<forall>p\<in>set (video_frames s). frames s p \<noteq> None"
  shows "free_video_data s
           = Some (s\<lparr>video_frames := [], frames := released (video_frames s) (frames s)\<rparr>)"
  using assms
proof (induction "video_frames s" arbitrary: s)
  case Nil
  then have e: "video_frames s = []" by simp
  have "s\<lparr>video_frames := [], frames := released [] (frames s)\<rparr> = s"
    using e by (cases s) (simp add: released_def)
  then show ?case using e
    by (subst free_video_data.simps) simp
next
  case (Cons frame rest)
  from Cons.hyps(2) have q: "video_frames s = frame # rest" by simp
  from Cons.prems(2) q obtain f where f: "frames s frame = Some f" by auto
  let ?s1 = "s\<lparr>video_frames := rest, frames := (frames s)(frame := release_frame f)\<rparr>"
  have d1: "distinct (video_frames ?s1)" using Cons.prems(1) q by simp
  have notin: "frame \<notin> set rest" using Cons.prems(1) q by simp
  have v1: "\<forall>p\<in>set (video_frames ?s1). frames ?s1 p \<noteq> None"
    using Cons.prems(2) q notin by auto
  have "free_video_data s = free_video_data ?s1"
    by (subst free_video_data.simps) (simp add: q f release_frame_def)
  also have "\<dots> = Some (?s1\<lparr>video_frames := [],
                      frames := released (video_frames ?s1) (frames ?s1)\<rparr>)"
    by (rule Cons.hyps(1) [OF _ d1 v1]) simp
  also have "released (video_frames ?s1) (frames ?s1) = released (video_frames s) (frames s)"
    using notin by (auto simp: released_def q f fun_eq_iff)
  finally show ?case by simp
qed

text \<open>
  C7, as the claim states it, fails for the disable transition: \<open>async_record_tick\<close> frees
  the queue only when recording is switched on. After a disable, the queued frame is still
  queued with its reference count untouched when \<open>thread_main_loop\<close> has left its loop and
  the session is torn down.
\<close>

theorem C7_drain_counterexample:
  "record_flag (recording_state\<lparr>enabled := False, output_handle := Some 2, video_output := Some 1\<rparr>)
   \<and> \<not> enabled (recording_state\<lparr>enabled := False, output_handle := Some 2, video_output := Some 1\<rparr>)
   \<and> async_record_tick
         (recording_state\<lparr>enabled := False, output_handle := Some 2, video_output := Some 1\<rparr>)
       = Some (recording_state\<lparr>enabled := False, output_handle := Some 2, video_output := Some 1,
                 record_flag := False\<rparr>)
   \<and> thread_main_pass main_answers
         (recording_state\<lparr>enabled := False, output_handle := Some 2, video_output := Some 1,
            record_flag := False\<rparr>)
       = Returned True
           (recording_state\<lparr>enabled := False, output_handle := Some 2, video_output := Some 1,
              record_flag := False, state := running\<rparr>)
   \<and> video_frames (thread_close_loop
         (recording_state\<lparr>enabled := False, output_handle := Some 2, video_output := Some 1,
            record_flag := False, state := running\<rparr>)) = [5]
   \<and> frames (thread_close_loop
         (recording_state\<lparr>enabled := False, output_handle := Some 2, video_output := Some 1,
            record_flag := False, state := running\<rparr>)) 5 = Some (frame_2x2 7)"
  by (simp add: async_record_tick_def thread_main_pass_def thread_close_loop_def
      recording_state_def bzalloc_async_record_def main_answers_def Let_def)

text \<open>
  C7, amended. With a queue of distinct live frames: \<open>async_record_remove\<close> and
  \<open>async_record_destroy\<close> (forced shutdown) and the transition to enabled in
  \<open>async_record_tick\<close> remove every queued frame, decrement its reference count and destroy
  it when the new count is \<open>\<le> 0\<close>, without any call to the sink; frames that are not
  queued are untouched. The transition to disabled only clears \<open>record\<close> and leaves the
  queue as it is.
\<close>

theorem C7_drain:
  assumes "distinct (video_frames s)" and "\<forall>p\<in>set (video_frames s). frames s p \<noteq> None"
  shows "async_record_remove s
           = Some (s\<lparr>close := True, video_frames := [],
                     frames := released (video_frames s) (frames s)\<rparr>)
     \<and> map_option calls (async_record_remove s) = Some (calls s)
     \<and> (enabled s \<and> \<not> record_flag s \<longrightarrow>
          async_record_tick s
            = Some (s\<lparr>record_flag := True, video_frames := [],
                      frames := released (video_frames s) (frames s)\<rparr>))
     \<and> (\<not> enabled s \<and> record_flag s \<longrightarrow> async_record_tick s = Some (s\<lparr>record_flag := False\<rparr>))
     \<and> (enabled s = record_flag s \<longrightarrow> async_record_tick s = Some s)
     \<and> (video_frames (thread_exit (s\<lparr>close := True\<rparr>)) = video_frames s
          \<and> frames (thread_exit (s\<lparr>close := True\<rparr>)) = frames s \<longrightarrow>
          async_record_destroy thread_exit s
            = Some ((thread_exit (s\<lparr>close := True\<rparr>))
                     \<lparr>directory := None, filename_format := None, extension := None,
                      video_frames := [], frames := released (video_frames s) (frames s)\<rparr>))
     \<and> (\<forall>p\<in>set (video_frames s).
          released (video_frames s) (frames s) p
            = (case frames s p of
                 None \<Rightarrow> None
               | Some f \<Rightarrow> if sint (refs f - 1) \<le> 0 then None
                           else Some (f\<lparr>refs := refs f - 1\<rparr>)))
     \<and> (\<forall>p. p \<notin> set (video_frames s) \<longrightarrow> released (video_frames s) (frames s) p = frames s p)"
proof -
  have remove: "async_record_remove s
           = Some (s\<lparr>close := True, video_frames := [],
                     frames := released (video_frames s) (frames s)\<rparr>)"
    using free_video_data_result [of "s\<lparr>close := True\<rparr>"] assms
    by (simp add: async_record_remove_def)
  have enable: "async_record_tick s
            = Some (s\<lparr>record_flag := True, video_frames := [],
                      frames := released (video_frames s) (frames s)\<rparr>)"
    if "enabled s" and "\<not> record_flag s"
    using free_video_data_result [of "s\<lparr>record_flag := True\<rparr>"] assms that
    by (simp add: async_record_tick_def Let_def)
  have disable: "async_record_tick s = Some (s\<lparr>record_flag := False\<rparr>)"
    if "\<not> enabled s" and "record_flag s"
    using that by (simp add: async_record_tick_def Let_def)
  have same: "async_record_tick s = Some s" if "enabled s = record_flag s"
    using that by (simp add: async_record_tick_def)
  have destroy: "async_record_destroy thread_exit s
            = Some ((thread_exit (s\<lparr>close := True\<rparr>))
                     \<lparr>directory := None, filename_format := None, extension := None,
                      video_frames := [], frames := released (video_frames s) (frames s)\<rparr>)"
    if "video_frames (thread_exit (s\<lparr>close := True\<rparr>)) = video_frames s"
      and "frames (thread_exit (s\<lparr>close := True\<rparr>)) = frames s"
    using free_video_data_result [of "(thread_exit (s\<lparr>close := True\<rparr>))
                     \<lparr>directory := None, filename_format := None, extension := None\<rparr>"] assms that
    by (simp add: async_record_destroy_def)
  have rel: "\<forall>p\<in>set (video_frames s).
          released (video_frames s) (frames s) p
            = (case frames s p of
                 None \<Rightarrow> None
               | Some f \<Rightarrow> if sint (refs f - 1) \<le> 0 then None
                           else Some (f\<lparr>refs := refs f - 1\<rparr>))"
    by (simp add: released_def release_frame_def split: option.splits)
  have other: "\<forall>p. p \<notin> set (video_frames s) \<longrightarrow> released (video_frames s) (frames s) p = frames s p"
    by (simp add: released_def)
  have quiet: "map_option calls (async_record_remove s) = Some (calls s)"
    using remove by simp
  from remove quiet enable disable same destroy rel other show ?thesis by blast
qed

theorem C7_drain_witness:
  "distinct (video_frames (recording_state\<lparr>record_flag := False\<rparr>))
   \<and> enabled (recording_state\<lparr>record_flag := False\<rparr>)
   \<and> \<not> record_flag (recording_state\<lparr>record_flag := False\<rparr>)
   \<and> map_option video_frames (async_record_tick (recording_state\<lparr>record_flag := False\<rparr>)) = Some []
   \<and> map_option (\<lambda>s. frames s 5) (async_record_tick (recording_state\<lparr>record_flag := False\<rparr>))
       = Some None
   \<and> map_option calls (async_record_tick (recording_state\<lparr>record_flag := False\<rparr>)) = Some []
   \<and> \<not> enabled (recording_state\<lparr>enabled := False\<rparr>)
   \<and> record_flag (recording_state\<lparr>enabled := False\<rparr>)
   \<and> map_option video_frames (async_record_tick (recording_state\<lparr>enabled := False\<rparr>)) = Some [5]
   \<and> map_option video_frames (async_record_remove recording_state) = Some []
   \<and> map_option close (async_record_remove recording_state) = Some True
   \<and> map_option video_frames (async_record_destroy (\<lambda>s. s) recording_state) = Some []
   \<and> 5 \<in> set (video_frames recording_state)
   \<and> released (video_frames recording_state) (frames recording_state) 5 = None
   \<and> 6 \<notin> set (video_frames recording_state)"
proof -
  have d: "distinct (video_frames s)" and v: "\<forall>p\<in>set (video_frames s). frames s p \<noteq> None"
    if "video_frames s = [5]" and "frames s 5 = Some (frame_2x2 7)" for s
    using that by simp_all
  have q: "video_frames (recording_state\<lparr>record_flag := False\<rparr>) = [5]"
    "frames (recording_state\<lparr>record_flag := False\<rparr>) 5 = Some (frame_2x2 7)"
    "video_frames (recording_state\<lparr>enabled := False\<rparr>) = [5]"
    "frames (recording_state\<lparr>enabled := False\<rparr>) 5 = Some (frame_2x2 7)"
    "video_frames recording_state = [5]" "frames recording_state 5 = Some (frame_2x2 7)"
    by (simp_all add: recording_state_def bzalloc_async_record_def)
  show ?thesis
    using C7_drain [OF d [OF q(1) q(2)] v [OF q(1) q(2)], of "\<lambda>s. s"]
      C7_drain [OF d [OF q(3) q(4)] v [OF q(3) q(4)], of "\<lambda>s. s"]
      C7_drain [OF d [OF q(5) q(6)] v [OF q(5) q(6)], of "\<lambda>s. s"]
    by (simp add: recording_state_def bzalloc_async_record_def frame_2x2_def)
qed

section \<open>Failures while a session starts (C5)\<close>

text \<open>
  C5, as the claim states it, fails: when the host disables recording between the unlock
  of line 157 and the peek, \<open>peek_first_frame\<close> returns \<open>NULL\<close>, \<open>create_video_output\<close>
  returns false, and the controller goes back to the top of its loop with the failure
  flag still clear.
\<close>

theorem C5_start_failure_counterexample:
  "\<not> close recording_state \<and> record_flag recording_state \<and> \<not> failed recording_state
   \<and> peek_first_frame []
         (recording_state\<lparr>state := starting, enabled := False, record_flag := False\<rparr>)
       = Returned None (recording_state\<lparr>state := starting, enabled := False, record_flag := False\<rparr>)
   \<and> thread_start_pass
         ((start_answers (Some (1, 16670000)) (Some 2) True)
            \<lparr>start_unlocked := [Enable_changed False, Tick]\<rparr>) recording_state
       = Returned None (recording_state\<lparr>state := starting, enabled := False, record_flag := False\<rparr>)
   \<and> \<not> failed (recording_state\<lparr>state := starting, enabled := False, record_flag := False\<rparr>)"
  by (simp add: thread_start_pass_def create_video_output_def start_answers_def
      recording_state_def bzalloc_async_record_def on_enable_changed_def async_record_tick_def
      Let_def)

text \<open>
  C5, amended. In a pass of \<open>thread_start_loop\<close> that gets beyond line 145: when
  \<open>obs_output_create\<close> returns \<open>NULL\<close>, and when \<open>obs_output_start\<close> fails (the output is
  then released), the controller sets \<open>failed\<close> and continues at the top of the loop; when
  \<open>peek_first_frame\<close> returns \<open>NULL\<close> it continues at the top of the loop with the state as
  the peek left it, the failure flag included. Nothing is stated here for a failed
  \<open>video_output_open\<close>.
\<close>

theorem C5_start_failure:
  assumes "\<not> close s" and "record_flag s" and "\<not> failed s"
    and "host_steps (start_unlocked env) (s\<lparr>state := starting, need_restart := False\<rparr>) = Some s1"
  shows "(peek_first_frame (peek_wakeups env) s1 = Returned None s2 \<longrightarrow>
            thread_start_pass env s = Returned None s2
            \<and> thread_start_loop (env # envs) s = thread_start_loop envs s2)
     \<and> (create_video_output env s1 = Returned True s2 \<and> output_create env = None \<longrightarrow>
            thread_start_pass env s = Returned None (s2\<lparr>failed := True\<rparr>)
            \<and> thread_start_loop (env # envs) s = thread_start_loop envs (s2\<lparr>failed := True\<rparr>))
     \<and> (create_video_output env s1 = Returned True s2 \<and> output_create env = Some out
          \<and> \<not> output_start env \<longrightarrow>
            thread_start_pass env s
              = Returned None (s2\<lparr>output_stopped := False,
                                 calls := calls s2 @ [Output_release out], failed := True\<rparr>)
            \<and> failed (s2\<lparr>output_stopped := False,
                         calls := calls s2 @ [Output_release out], failed := True\<rparr>)
            \<and> thread_start_loop (env # envs) s
                = thread_start_loop envs
                    (s2\<lparr>output_stopped := False,
                        calls := calls s2 @ [Output_release out], failed := True\<rparr>))"
  using assms
  by (simp add: thread_start_pass_def create_video_output_def Let_def)

theorem C5_start_failure_witness:
  "\<not> close recording_state \<and> record_flag recording_state \<and> \<not> failed recording_state
   \<and> create_video_output (start_answers (Some (1, 16670000)) None True)
         (recording_state\<lparr>state := starting\<rparr>)
       = Returned True (recording_state\<lparr>state := starting, video_output := Some 1,
                          last_video_ns := 0, video_frame_interval := 16670000\<rparr>)
   \<and> thread_start_pass (start_answers (Some (1, 16670000)) None True) recording_state
       = Returned None (recording_state\<lparr>state := starting, video_output := Some 1,
                          last_video_ns := 0, video_frame_interval := 16670000, failed := True\<rparr>)
   \<and> thread_start_loop [start_answers (Some (1, 16670000)) None True] recording_state
       = Pending (recording_state\<lparr>state := starting, video_output := Some 1,
                    last_video_ns := 0, video_frame_interval := 16670000, failed := True\<rparr>)
   \<and> thread_start_pass (start_answers (Some (1, 16670000)) (Some 2) False) recording_state
       = Returned None (recording_state\<lparr>state := starting, video_output := Some 1,
                          last_video_ns := 0, video_frame_interval := 16670000,
                          calls := [Output_release 2], failed := True\<rparr>)
   \<and> thread_start_pass
         ((start_answers (Some (1, 16670000)) (Some 2) True)
            \<lparr>start_unlocked := [Enable_changed False, Tick]\<rparr>) recording_state
       = Returned None (recording_state\<lparr>state := starting, enabled := False, record_flag := False\<rparr>)"
proof -
  let ?s2 = "recording_state\<lparr>state := starting, video_output := Some 1,
                          last_video_ns := 0, video_frame_interval := 16670000\<rparr>"
  let ?s3 = "recording_state\<lparr>state := starting, enabled := False, record_flag := False\<rparr>"
  let ?e1 = "start_answers (Some (1, 16670000)) None True"
  let ?e2 = "start_answers (Some (1, 16670000)) (Some 2) False"
  let ?e3 = "(start_answers (Some (1, 16670000)) (Some 2) True)
               \<lparr>start_unlocked := [Enable_changed False, Tick]\<rparr>"
  have a: "\<not> close recording_state" "record_flag recording_state" "\<not> failed recording_state"
    by (simp_all add: recording_state_def bzalloc_async_record_def)
  have u1: "host_steps (start_unlocked ?e1) (recording_state\<lparr>state := starting, need_restart := False\<rparr>)
              = Some (recording_state\<lparr>state := starting\<rparr>)"
    and u2: "host_steps (start_unlocked ?e2) (recording_state\<lparr>state := starting, need_restart := False\<rparr>)
              = Some (recording_state\<lparr>state := starting\<rparr>)"
    and u3: "host_steps (start_unlocked ?e3) (recording_state\<lparr>state := starting, need_restart := False\<rparr>)
              = Some ?s3"
    by (simp_all add: start_answers_def recording_state_def bzalloc_async_record_def
        on_enable_changed_def async_record_tick_def Let_def)
  have c1: "create_video_output ?e1 (recording_state\<lparr>state := starting\<rparr>) = Returned True ?s2"
    and c2: "create_video_output ?e2 (recording_state\<lparr>state := starting\<rparr>) = Returned True ?s2"
    and c3: "peek_first_frame (peek_wakeups ?e3) ?s3 = Returned None ?s3"
    and o: "output_create ?e1 = None" "output_create ?e2 = Some 2" "\<not> output_start ?e2"
    by (simp_all add: create_video_output_def start_answers_def recording_state_def
        bzalloc_async_record_def)
  have l: "calls ?s2 = []"
    by (simp add: recording_state_def bzalloc_async_record_def)
  have r1: "thread_start_pass ?e1 recording_state = Returned None (?s2\<lparr>failed := True\<rparr>)
            \<and> thread_start_loop [?e1] recording_state = thread_start_loop [] (?s2\<lparr>failed := True\<rparr>)"
    using C5_start_failure [OF a u1, of ?s2 "[]" 2] c1 o(1) by blast
  have r2: "thread_start_pass ?e2 recording_state
              = Returned None (?s2\<lparr>output_stopped := False,
                                 calls := calls ?s2 @ [Output_release 2], failed := True\<rparr>)"
    using C5_start_failure [OF a u2, of ?s2 "[]" 2] c2 o(2) o(3) by blast
  have r3: "thread_start_pass ?e3 recording_state = Returned None ?s3"
    using C5_start_failure [OF a u3, of ?s3 "[]" 2] c3 by blast
  have n: "?s2\<lparr>output_stopped := False, calls := calls ?s2 @ [Output_release 2], failed := True\<rparr>
           = recording_state\<lparr>state := starting, video_output := Some 1,
                          last_video_ns := 0, video_frame_interval := 16670000,
                          calls := [Output_release 2], failed := True\<rparr>"
    by (simp add: recording_state_def bzalloc_async_record_def)
  show ?thesis
    using a c1 r1 r2 r3 unfolding n by simp
qed

section \<open>Copying into the write slot (C8)\<close>

text \<open>
  The row loop by the number of rows left, and its effect byte by byte: a \<open>memcpy\<close> writes
  \<open>n\<close> bytes from offset \<open>d\<close> and nothing else; the loop over \<open>n\<close> rows writes the first
  \<open>ls\<close> bytes of each destination row from the first \<open>ls\<close> bytes of the source row and
  leaves every other byte as it was. Induction on the rows, with offsets and destination
  generalised.
\<close>

lemma unat_succ_less:
  fixes y h :: u32
  assumes "y < h"
  shows "unat (y + 1) = unat y + 1" and "unat y < unat h"
proof -
  show lt: "unat y < unat h" using assms by (simp add: word_less_nat_alt)
  have "unat h < 2 ^ 32" using unsigned_less [of h, where 'a = nat] by simp
  with lt have "unat y + 1 < 2 ^ 32" by linarith
  then show "unat (y + 1) = unat y + 1" by (simp add: unat_word_ariths)
qed

lemma copy_rows_count:
  "copy_rows y h ls dls sls d s dst src
     = copy_rows_n (unat h - unat y) (unat ls) (unat dls) (unat sls) d s dst src"
proof (induction y h ls dls sls d s dst src rule: copy_rows.induct)
  case (1 y h ls dls sls d s dst src)
  show ?case
  proof (cases "y < h")
    case True
    note u = unat_succ_less [OF True]
    have n: "unat h - unat y = Suc (unat h - unat (y + 1))" using u by simp
    show ?thesis
      using True "1.IH" [OF True]
      by (subst copy_rows.simps, subst n) (simp split: option.splits)
  next
    case False
    then have "unat h - unat y = 0" by (simp add: word_less_nat_alt)
    then show ?thesis using False by (subst copy_rows.simps) simp
  qed
qed

lemma memcpy_nth:
  assumes "memcpy dst d src s n = Some r"
  shows "length r = length dst"
    and "\<And>k. k < n \<Longrightarrow> r ! (d + k) = src ! (s + k)"
    and "\<And>i. i < length dst \<Longrightarrow> \<not> (d \<le> i \<and> i < d + n) \<Longrightarrow> r ! i = dst ! i"
proof -
  from assms have b: "d + n \<le> length dst" "s + n \<le> length src"
    and r: "r = take d dst @ take n (drop s src) @ drop (d + n) dst"
    by (auto simp: memcpy_def split: if_splits)
  show "length r = length dst" using b by (simp add: r)
  show "r ! (d + k) = src ! (s + k)" if "k < n" for k
    using b that by (simp add: r nth_append)
  show "r ! i = dst ! i" if "i < length dst" and "\<not> (d \<le> i \<and> i < d + n)" for i
    using b that by (auto simp: r nth_append)
qed


lemma copy_rows_n_spec:
  assumes "ls \<le> dls" and "ls \<le> sls"
    and "d + n * dls \<le> length dst" and "s + n * sls \<le> length src"
  shows "\<exists>r. copy_rows_n n ls dls sls d s dst src = Some r \<and> length r = length dst
           \<and> (\<forall>j<n. \<forall>k<ls. r ! (d + j * dls + k) = src ! (s + j * sls + k))
           \<and> (\<forall>i<length dst. (\<forall>j<n. \<not> (d + j * dls \<le> i \<and> i < d + j * dls + ls))
                  \<longrightarrow> r ! i = dst ! i)"
  using assms(3,4)
proof (induction n arbitrary: d s dst)
  case 0
  then show ?case by simp
next
  case (Suc n)
  have fits: "d + ls \<le> length dst" "s + ls \<le> length src"
    using Suc.prems assms(1,2) by (simp_all add: trans_le_add1 le_trans [OF add_left_mono])
  then obtain dst1 where m: "memcpy dst d src s ls = Some dst1"
    by (simp add: memcpy_def)
  note row = memcpy_nth [OF m]
  have p1: "d + dls + n * dls \<le> length dst1" using Suc.prems(1) row(1) by simp
  have p2: "s + sls + n * sls \<le> length src" using Suc.prems(2) by simp
  from Suc.IH [OF p1 p2] obtain r where
    r: "copy_rows_n n ls dls sls (d + dls) (s + sls) dst1 src = Some r"
    and len: "length r = length dst1"
    and rows: "\<And>j k. j < n \<Longrightarrow> k < ls \<Longrightarrow>
                 r ! (d + dls + j * dls + k) = src ! (s + sls + j * sls + k)"
    and rest: "\<And>i. i < length dst1 \<Longrightarrow>
                 (\<forall>j<n. \<not> (d + dls + j * dls \<le> i \<and> i < d + dls + j * dls + ls))
                 \<Longrightarrow> r ! i = dst1 ! i"
    by blast
  have res: "copy_rows_n (Suc n) ls dls sls d s dst src = Some r" using m r by simp
  have a: "r ! (d + j * dls + k) = src ! (s + j * sls + k)" if "j < Suc n" and "k < ls" for j k
  proof (cases j)
    case 0
    have "d + k < length dst1" using that(2) fits(1) row(1) by simp
    moreover have "\<forall>j<n. \<not> (d + dls + j * dls \<le> d + k \<and> d + k < d + dls + j * dls + ls)"
      using that(2) assms(1) by auto
    ultimately have "r ! (d + k) = dst1 ! (d + k)" by (rule rest)
    also have "\<dots> = src ! (s + k)" using that(2) by (rule row(2))
    finally show ?thesis using 0 by simp
  next
    case (Suc j')
    then have "j' < n" using that(1) by simp
    from rows [OF this that(2)] show ?thesis using Suc by (simp add: add.assoc add.left_commute)
  qed
  have b: "r ! i = dst ! i"
    if "i < length dst" and out: "\<forall>j<Suc n. \<not> (d + j * dls \<le> i \<and> i < d + j * dls + ls)" for i
  proof -
    have "\<forall>j<n. \<not> (d + dls + j * dls \<le> i \<and> i < d + dls + j * dls + ls)"
    proof (intro allI impI)
      fix j assume "j < n"
      then have "Suc j < Suc n" by simp
      with out have "\<not> (d + Suc j * dls \<le> i \<and> i < d + Suc j * dls + ls)" by blast
      then show "\<not> (d + dls + j * dls \<le> i \<and> i < d + dls + j * dls + ls)"
        by (simp add: add.assoc)
    qed
    with that(1) row(1) have "r ! i = dst1 ! i" by (simp add: rest)
    moreover have "\<not> (d \<le> i \<and> i < d + ls)" using out [rule_format, of 0] by simp
    ultimately show ?thesis using row(3) [OF that(1)] by simp
  qed
  from res len row(1) a b show ?case by simp
qed

text \<open>
  C8, as the claim states it, fails for a plane of \<open>2^32\<close> bytes or more: the size of the
  bulk copy is the 32-bit product \<open>linesize * height\<close> (line 251). With 65536 rows of
  65536 bytes the product is 0 and nothing is copied.
\<close>

theorem C8_copy_plane_counterexample:
  "linesize frame_64k 0 = linesize_vf slot_64k 0
   \<and> length (data frame_64k 0) = 65536 * 65536
   \<and> length (data_vf slot_64k 0) = 65536 * 65536
   \<and> copy_plane frame_64k slot_64k = Some slot_64k
   \<and> data_vf slot_64k 0 \<noteq> data frame_64k 0"
  by (simp add: copy_plane_def memcpy_def frame_64k_def slot_64k_def plane_4gib_def
      fun_eq_iff del: copy_rows.simps)

text \<open>
  C8, amended. Both planes are taken to hold \<open>height\<close> rows of their stride. With equal
  strides and a plane below \<open>2^32\<close> bytes the slot's plane 0 receives the first
  \<open>linesize * height\<close> bytes of the frame's plane 0 in one \<open>memcpy\<close>. With different strides, every row \<open>y < height\<close> receives the first
  \<open>min\<close> of the two strides bytes of source row \<open>y\<close>; every other byte of the slot's
  plane 0 keeps its value, so no write goes beyond the destination row and no read beyond
  the source row. The strides of the slot and its planes other than 0 are never changed.
\<close>

theorem C8_copy_plane:
  assumes "unat (height frame) * unat (linesize_vf out 0) \<le> length (data_vf out 0)"
    and "unat (height frame) * unat (linesize frame 0) \<le> length (data frame 0)"
  shows "(linesize frame 0 = linesize_vf out 0
          \<and> unat (linesize_vf out 0) * unat (height frame) < 2 ^ 32 \<longrightarrow>
            copy_plane frame out
              = Some (out\<lparr>data_vf := (data_vf out)
                   (0 := take (unat (linesize_vf out 0) * unat (height frame)) (data frame 0)
                         @ drop (unat (linesize_vf out 0) * unat (height frame)) (data_vf out 0))\<rparr>))
     \<and> (linesize frame 0 \<noteq> linesize_vf out 0 \<longrightarrow>
          (\<exists>r. copy_plane frame out = Some (out\<lparr>data_vf := (data_vf out)(0 := r)\<rparr>)
             \<and> length r = length (data_vf out 0)
             \<and> (\<forall>y<unat (height frame).
                   \<forall>k<min (unat (linesize frame 0)) (unat (linesize_vf out 0)).
                     r ! (y * unat (linesize_vf out 0) + k)
                       = data frame 0 ! (y * unat (linesize frame 0) + k))
             \<and> (\<forall>i<length r.
                   (\<forall>y<unat (height frame).
                      \<not> (y * unat (linesize_vf out 0) \<le> i
                         \<and> i < y * unat (linesize_vf out 0)
                                + min (unat (linesize frame 0)) (unat (linesize_vf out 0))))
                   \<longrightarrow> r ! i = data_vf out 0 ! i)))
     \<and> (\<forall>written. copy_plane frame out = Some written \<longrightarrow>
          linesize_vf written = linesize_vf out
          \<and> (\<forall>i. i \<noteq> 0 \<longrightarrow> data_vf written i = data_vf out i))"
proof -
  let ?h = "unat (height frame)" and ?dls = "unat (linesize_vf out 0)"
    and ?sls = "unat (linesize frame 0)"
  let ?dst = "data_vf out 0" and ?src = "data frame 0"
  have bulk: "copy_plane frame out
              = Some (out\<lparr>data_vf := (data_vf out) (0 := take (?dls * ?h) ?src @ drop (?dls * ?h) ?dst)\<rparr>)"
    if eq: "linesize frame 0 = linesize_vf out 0" and small: "?dls * ?h < 2 ^ 32"
  proof -
    have n: "unat (linesize_vf out 0 * height frame) = ?dls * ?h"
      using small by (simp add: unat_mult_lem [THEN iffD1])
    have "?dls * ?h \<le> length ?dst" "?dls * ?h \<le> length ?src"
      using assms eq by (simp_all add: mult.commute)
    then show ?thesis
      using eq by (simp add: copy_plane_def memcpy_def n)
  qed
  have rows: "\<exists>r. copy_plane frame out = Some (out\<lparr>data_vf := (data_vf out)(0 := r)\<rparr>)
             \<and> length r = length ?dst
             \<and> (\<forall>y<?h. \<forall>k<min ?sls ?dls. r ! (y * ?dls + k) = ?src ! (y * ?sls + k))
             \<and> (\<forall>i<length r. (\<forall>y<?h. \<not> (y * ?dls \<le> i \<and> i < y * ?dls + min ?sls ?dls))
                   \<longrightarrow> r ! i = ?dst ! i)"
    if ne: "linesize frame 0 \<noteq> linesize_vf out 0"
  proof -
    let ?ls = "if linesize_vf out 0 < linesize frame 0 then linesize_vf out 0 else linesize frame 0"
    have ls: "unat ?ls = min ?sls ?dls"
      by (simp add: word_less_nat_alt min_def)
    have le: "min ?sls ?dls \<le> ?dls" "min ?sls ?dls \<le> ?sls" by simp_all
    have fit: "0 + ?h * ?dls \<le> length ?dst" "0 + ?h * ?sls \<le> length ?src"
      using assms by simp_all
    from copy_rows_n_spec [OF le fit] obtain r where
      r: "copy_rows_n ?h (min ?sls ?dls) ?dls ?sls 0 0 ?dst ?src = Some r"
      and len: "length r = length ?dst"
      and a: "\<forall>j<?h. \<forall>k<min ?sls ?dls. r ! (0 + j * ?dls + k) = ?src ! (0 + j * ?sls + k)"
      and b: "\<forall>i<length ?dst. (\<forall>j<?h. \<not> (0 + j * ?dls \<le> i \<and> i < 0 + j * ?dls + min ?sls ?dls))
                  \<longrightarrow> r ! i = ?dst ! i"
      by blast
    have "copy_rows 0 (height frame) ?ls (linesize_vf out 0) (linesize frame 0) 0 0 ?dst ?src = Some r"
      using r by (simp only: copy_rows_count ls unsigned_0 diff_zero)
    then have "copy_plane frame out = Some (out\<lparr>data_vf := (data_vf out)(0 := r)\<rparr>)"
      using ne by (simp add: copy_plane_def Let_def del: copy_rows.simps)
    then show ?thesis using len a b by auto
  qed
  have planes: "\<forall>written. copy_plane frame out = Some written \<longrightarrow>
          linesize_vf written = linesize_vf out
          \<and> (\<forall>i. i \<noteq> 0 \<longrightarrow> data_vf written i = data_vf out i)"
    by (auto simp: copy_plane_def Let_def simp del: copy_rows.simps split: option.splits if_splits)
  from bulk rows planes show ?thesis by blast
qed

theorem C8_copy_plane_witness:
  "unat (height (frame_2x2 5)) * unat (linesize_vf slot_3x2 0) \<le> length (data_vf slot_3x2 0)
   \<and> unat (height (frame_2x2 5)) * unat (linesize_vf slot_2x2 0) \<le> length (data_vf slot_2x2 0)
   \<and> unat (height (frame_2x2 5)) * unat (linesize (frame_2x2 5) 0) \<le> length (data (frame_2x2 5) 0)
   \<and> linesize (frame_2x2 5) 0 \<noteq> linesize_vf slot_3x2 0
   \<and> map_option (\<lambda>v. data_vf v 0) (copy_plane (frame_2x2 5) slot_3x2) = Some [1, 2, 9, 3, 4, 9]
   \<and> map_option (\<lambda>v. data_vf v 1) (copy_plane (frame_2x2 5) slot_3x2) = Some [7]
   \<and> linesize (frame_2x2 5) 0 = linesize_vf slot_2x2 0
   \<and> map_option (\<lambda>v. data_vf v 0) (copy_plane (frame_2x2 5) slot_2x2) = Some [1, 2, 3, 4]"
proof -
  have h1: "unat (height (frame_2x2 5)) * unat (linesize_vf slot_3x2 0) \<le> length (data_vf slot_3x2 0)"
    and h2: "unat (height (frame_2x2 5)) * unat (linesize_vf slot_2x2 0) \<le> length (data_vf slot_2x2 0)"
    and h3: "unat (height (frame_2x2 5)) * unat (linesize (frame_2x2 5) 0) \<le> length (data (frame_2x2 5) 0)"
    and ne: "linesize (frame_2x2 5) 0 \<noteq> linesize_vf slot_3x2 0"
    and eq: "linesize (frame_2x2 5) 0 = linesize_vf slot_2x2 0"
    by (simp_all add: frame_2x2_def slot_3x2_def slot_2x2_def)
  have e: "map_option (\<lambda>v. data_vf v 0) (copy_plane (frame_2x2 5) slot_3x2) = Some [1, 2, 9, 3, 4, 9]"
    "map_option (\<lambda>v. data_vf v 1) (copy_plane (frame_2x2 5) slot_3x2) = Some [7]"
    by code_simp+
  have small: "unat (linesize_vf slot_2x2 0) * unat (height (frame_2x2 5)) < 2 ^ 32"
    by (simp add: frame_2x2_def slot_2x2_def)
  have "copy_plane (frame_2x2 5) slot_2x2
          = Some (slot_2x2\<lparr>data_vf := (data_vf slot_2x2)
               (0 := take (unat (linesize_vf slot_2x2 0) * unat (height (frame_2x2 5))) (data (frame_2x2 5) 0)
                     @ drop (unat (linesize_vf slot_2x2 0) * unat (height (frame_2x2 5)))
                         (data_vf slot_2x2 0))\<rparr>)"
    by (rule mp [OF C8_copy_plane [OF h2 h3, THEN conjunct1]]) (rule conjI [OF eq small])
  then have b: "map_option (\<lambda>v. data_vf v 0) (copy_plane (frame_2x2 5) slot_2x2) = Some [1, 2, 3, 4]"
    by (simp add: frame_2x2_def slot_2x2_def)
  show ?thesis using h1 h2 h3 ne eq e b by simp
qed

end
